theory Spec2Isabelle
  imports Complex_Main "HOL-Library.Log_Nat"
begin

section \<open>JavaScript values\<close>

text \<open>
  A JavaScript number is NaN, one of the two infinities, or a finite binary64 value. A
  finite value is embedded as the rational it denotes. The two zeros are identified: the
  code looks at numbers with \<open>===\<close>, \<open><\<close>, \<open>>\<close>, \<open><=\<close>, \<open>%\<close> and the \<open>Number.is...\<close> predicates,
  none of which tells \<open>-0\<close> from \<open>0\<close>, and two results that differ in the sign of a zero
  only are equal under \<open>===\<close>.
\<close>

datatype jsnum = NaN | PosInf | NegInf | Fin rat

text \<open>
  The values an argument can hold at run time. The validators look at \<open>== null\<close>,
  \<open>typeof\<close> and \<open>Array.isArray\<close> only, so every other kind of value (objects,
  functions, symbols) is one constructor. Strings are sequences of code units in the
  range 0..255 (Latin-1); a string with a code unit above 255 is outside the embedding,
  and every statement about strings is a statement about the strings of this range.
\<close>

datatype jsval = Undefined | Null | Bool bool | Num jsnum | Str string
  | Arr "jsval list" | Other

text \<open>A key of an options object: not set, or set to a value that may be \<open>undefined\<close>.\<close>

datatype 'a entry = Absent | Present "'a option"

definition read :: "'a entry \<Rightarrow> 'a option" where
  "read p = (case p of Absent \<Rightarrow> None | Present v \<Rightarrow> v)"

definition over :: "'a entry \<Rightarrow> 'a entry \<Rightarrow> 'a entry" where
  "over a b = (case b of Absent \<Rightarrow> a | Present v \<Rightarrow> Present v)"

definition truthy :: "bool option \<Rightarrow> bool" where
  "truthy b = (b = Some True)"

subsection \<open>Number primitives\<close>

definition MAX_SAFE_INTEGER :: rat where
  "MAX_SAFE_INTEGER = 9007199254740991"

fun isNaN :: "jsnum \<Rightarrow> bool" where
  "isNaN NaN = True"
| "isNaN _ = False"

fun isFinite :: "jsnum \<Rightarrow> bool" where
  "isFinite (Fin _) = True"
| "isFinite _ = False"

fun isInteger :: "jsnum \<Rightarrow> bool" where
  "isInteger (Fin x) = (of_int \<lfloor>x\<rfloor> = x)"
| "isInteger _ = False"

text \<open>
  \<open>a < b\<close>, \<open>a > b\<close>, \<open>a === b\<close> and \<open>a <= b\<close> on numbers: every comparison with NaN is
  false.
\<close>

fun jlt :: "jsnum \<Rightarrow> jsnum \<Rightarrow> bool" where
  "jlt NaN _ = False"
| "jlt _ NaN = False"
| "jlt (Fin x) (Fin y) = (x < y)"
| "jlt _ NegInf = False"
| "jlt PosInf _ = False"
| "jlt NegInf _ = True"
| "jlt (Fin _) PosInf = True"

definition jgt :: "jsnum \<Rightarrow> jsnum \<Rightarrow> bool" where
  "jgt a b = jlt b a"

definition strict_eq :: "jsnum \<Rightarrow> jsnum \<Rightarrow> bool" where
  "strict_eq a b = (a \<noteq> NaN \<and> a = b)"

definition jle :: "jsnum \<Rightarrow> jsnum \<Rightarrow> bool" where
  "jle a b = (jlt a b \<or> strict_eq a b)"

text \<open>
  \<open>a % b\<close>: NaN when an operand is NaN, the dividend is infinite or the divisor is zero;
  the dividend itself when the divisor is infinite; otherwise the remainder of the
  truncating division, which binary64 computes exactly.
\<close>

definition rat_trunc :: "rat \<Rightarrow> int" where
  "rat_trunc x = (if x < 0 then \<lceil>x\<rceil> else \<lfloor>x\<rfloor>)"

fun jrem :: "jsnum \<Rightarrow> jsnum \<Rightarrow> jsnum" where
  "jrem (Fin x) (Fin y) = (if y = 0 then NaN else Fin (x - y * of_int (rat_trunc (x / y))))"
| "jrem (Fin x) PosInf = Fin x"
| "jrem (Fin x) NegInf = Fin x"
| "jrem _ _ = NaN"

section \<open>Failures\<close>

text \<open>
  One constructor for each \<open>throw new Error(...)\<close> of the two modules. The messages built
  by template literals keep their interpolated values as arguments.
\<close>

datatype error =
    NumberRequired
  | TypeMustBeNumber
  | NumberNaN
  | NumberInfinite
  | NumberZero
  | NumberNegative
  | BelowMinimum jsnum jsnum
  | AboveMaximum jsnum jsnum
  | StringRequired
  | TypeMustBeString
  | StringEmpty
  | StringWhitespaceOnly
  | StringTooLong nat jsnum
  | StringControlChars
  | InputMustBeArray
  | ArrayEmpty
  | FactorialOnlyIntegers
  | FactorialTooLarge
  | FibonacciOnlyIntegers
  | FibonacciTooLarge
  | PrimeOnlyIntegers
  | DecimalsOutOfRange
  | InputMustBeString
  | StringCannotBeEmpty
  | NotConvertible
  | OnlyUnderscores

datatype piece = Lit string | NumArg jsnum | LenArg nat

fun message :: "error \<Rightarrow> piece list" where
  "message NumberRequired = [Lit ''Number is required'']"
| "message TypeMustBeNumber = [Lit ''Type must be a number'']"
| "message NumberNaN = [Lit ''Number cannot be NaN'']"
| "message NumberInfinite = [Lit ''Number cannot be Infinity or -Infinity'']"
| "message NumberZero = [Lit ''Number cannot be zero'']"
| "message NumberNegative = [Lit ''Number cannot be negative'']"
| "message (BelowMinimum x m) =
     [Lit ''Number ('', NumArg x, Lit '') is less than minimum allowed value ('', NumArg m, Lit '')'']"
| "message (AboveMaximum x m) =
     [Lit ''Number ('', NumArg x, Lit '') is greater than maximum allowed value ('', NumArg m, Lit '')'']"
| "message StringRequired = [Lit ''String is required'']"
| "message TypeMustBeString = [Lit ''Type must be a string'']"
| "message StringEmpty = [Lit ''String must not be empty'']"
| "message StringWhitespaceOnly = [Lit ''String must not be whitespace-only'']"
| "message (StringTooLong n m) =
     [Lit ''String length ('', LenArg n, Lit '') exceeds maximum allowed length ('', NumArg m, Lit '')'']"
| "message StringControlChars = [Lit ''String contains invalid control characters'']"
| "message InputMustBeArray = [Lit ''Input must be an array'']"
| "message ArrayEmpty = [Lit ''Array cannot be empty'']"
| "message FactorialOnlyIntegers = [Lit ''Factorial is only defined for integers'']"
| "message FactorialTooLarge = [Lit ''Factorial result would be too large (max: 170)'']"
| "message FibonacciOnlyIntegers = [Lit ''Fibonacci is only defined for integers'']"
| "message FibonacciTooLarge = [Lit ''Fibonacci result would be too large (max: 78)'']"
| "message PrimeOnlyIntegers = [Lit ''Prime check is only defined for integers'']"
| "message DecimalsOutOfRange = [Lit ''Decimals must be an integer between 0 and 20'']"
| "message InputMustBeString = [Lit ''Input must be a string'']"
| "message StringCannotBeEmpty = [Lit ''String cannot be empty'']"
| "message NotConvertible = [Lit ''String cannot be converted to a valid number'']"
| "message OnlyUnderscores = [Lit ''String contains only underscores'']"

text \<open>
  Modelled from the spec: \<open>tryCatch\<close> of the package \<open>@julian-i/try-error\<close>, which is not
  part of the sources. It runs a computation and captures a raised failure: the result
  is the pair \<open>[value, null]\<close> or \<open>[null, failure]\<close>. A computation that may raise is a
  value of \<open>error + 'a\<close> (\<open>Inl\<close> the raised failure).
\<close>

datatype 'a outcome = Success 'a | Failure error

fun tryCatch :: "error + 'a \<Rightarrow> 'a outcome" where
  "tryCatch (Inl e) = Failure e"
| "tryCatch (Inr v) = Success v"

section \<open>Numeric validation\<close>

record NumberValidationOptions =
  min_value :: "jsnum entry"
  max_value :: "jsnum entry"
  allowNegative :: "bool entry"
  allowZero :: "bool entry"
  allowInfinity :: "bool entry"
  allowNaN :: "bool entry"

definition no_number_options :: NumberValidationOptions where
  "no_number_options = \<lparr> min_value = Absent, max_value = Absent, allowNegative = Absent,
     allowZero = Absent, allowInfinity = Absent, allowNaN = Absent \<rparr>"

definition DEFAULT_OPTIONS :: NumberValidationOptions where
  "DEFAULT_OPTIONS = \<lparr>
     min_value = Present (Some (Fin (- MAX_SAFE_INTEGER))),
     max_value = Present (Some (Fin MAX_SAFE_INTEGER)),
     allowNegative = Present (Some True),
     allowZero = Present (Some True),
     allowInfinity = Present (Some False),
     allowNaN = Present (Some False) \<rparr>"

text \<open>The object spread \<open>{ ...a, ...b }\<close>: every key set in \<open>b\<close> wins, whatever its value.\<close>

definition spread :: "NumberValidationOptions \<Rightarrow> NumberValidationOptions \<Rightarrow> NumberValidationOptions" where
  "spread a b = \<lparr>
     min_value = over (min_value a) (min_value b),
     max_value = over (max_value a) (max_value b),
     allowNegative = over (allowNegative a) (allowNegative b),
     allowZero = over (allowZero a) (allowZero b),
     allowInfinity = over (allowInfinity a) (allowInfinity b),
     allowNaN = over (allowNaN a) (allowNaN b) \<rparr>"

text \<open>
  The parameter \<open>options\<close> is optional: \<open>None\<close> is a call that leaves it out, for which
  the default parameter value \<open>DEFAULT_OPTIONS\<close> is taken. Spreading \<open>undefined\<close> adds no
  key.
\<close>

definition merged :: "NumberValidationOptions option \<Rightarrow> NumberValidationOptions" where
  "merged options =
     spread DEFAULT_OPTIONS (case options of None \<Rightarrow> DEFAULT_OPTIONS | Some ov \<Rightarrow> ov)"

definition spread_undefined :: "NumberValidationOptions option \<Rightarrow> NumberValidationOptions" where
  "spread_undefined options = (case options of None \<Rightarrow> no_number_options | Some ov \<Rightarrow> ov)"

text \<open>
  \<open>isNumber\<close> returns nothing or raises; the embedding returns the candidate as a number
  when every check passed, which is what the callers go on to compute with.
\<close>

definition isNumber_checks :: "jsnum \<Rightarrow> NumberValidationOptions \<Rightarrow> error + jsnum" where
  "isNumber_checks num opts =
    (if \<not> truthy (read (allowNaN opts)) \<and> isNaN num then Inl NumberNaN
     else if truthy (read (allowNaN opts)) \<and> isNaN num then Inr num
     else if \<not> truthy (read (allowInfinity opts)) \<and> \<not> isFinite num then Inl NumberInfinite
     else if truthy (read (allowInfinity opts)) \<and> \<not> isFinite num then Inr num
     else if \<not> truthy (read (allowZero opts)) \<and> strict_eq num (Fin 0) then Inl NumberZero
     else if \<not> truthy (read (allowNegative opts)) \<and> jlt num (Fin 0) then Inl NumberNegative
     else if (case read (min_value opts) of None \<Rightarrow> False | Some m \<Rightarrow> jlt num m)
       then Inl (BelowMinimum num (the (read (min_value opts))))
     else if (case read (max_value opts) of None \<Rightarrow> False | Some m \<Rightarrow> jgt num m)
       then Inl (AboveMaximum num (the (read (max_value opts))))
     else Inr num)"

definition isNumber :: "jsval \<Rightarrow> NumberValidationOptions option \<Rightarrow> error + jsnum" where
  "isNumber num options =
    (let opts = merged options in
     if num = Undefined \<or> num = Null then Inl NumberRequired
     else case num of
       Num x \<Rightarrow> isNumber_checks x opts
     | _ \<Rightarrow> Inl TypeMustBeNumber)"

section \<open>Textual validation\<close>

record StringValidationOptions =
  maxLength :: "jsnum entry"
  allowWhitespaceOnly :: "bool entry"
  allowSpecialChars :: "bool entry"

definition DEFAULT_STRING_OPTIONS :: StringValidationOptions where
  "DEFAULT_STRING_OPTIONS = \<lparr>
     maxLength = Present (Some (Fin 10000)),
     allowWhitespaceOnly = Present (Some False),
     allowSpecialChars = Present (Some True) \<rparr>"

definition spread_string :: "StringValidationOptions \<Rightarrow> StringValidationOptions \<Rightarrow> StringValidationOptions" where
  "spread_string a b = \<lparr>
     maxLength = over (maxLength a) (maxLength b),
     allowWhitespaceOnly = over (allowWhitespaceOnly a) (allowWhitespaceOnly b),
     allowSpecialChars = over (allowSpecialChars a) (allowSpecialChars b) \<rparr>"

definition merged_string :: "StringValidationOptions option \<Rightarrow> StringValidationOptions" where
  "merged_string options =
     spread_string DEFAULT_STRING_OPTIONS
       (case options of None \<Rightarrow> DEFAULT_STRING_OPTIONS | Some ov \<Rightarrow> ov)"

text \<open>
  White space as \<open>trim\<close> and the class \<open>\s\<close> see it, in the range of code units the
  embedding has: tab, line feed, vertical tab, form feed, carriage return, space and the
  no-break space.
\<close>

definition code_unit :: "char \<Rightarrow> nat" where
  "code_unit c = of_char c"

definition is_space :: "char \<Rightarrow> bool" where
  "is_space c = (code_unit c \<in> {9, 10, 11, 12, 13, 32, 160})"

definition trim :: "string \<Rightarrow> string" where
  "trim s = rev (dropWhile is_space (rev (dropWhile is_space s)))"

text \<open>The class \<open>[\x00-\x08\x0B\x0C\x0E-\x1F\x7F]\<close>.\<close>

definition is_control :: "char \<Rightarrow> bool" where
  "is_control c = (let n = code_unit c in n \<le> 8 \<or> n = 11 \<or> n = 12 \<or> (14 \<le> n \<and> n \<le> 31) \<or> n = 127)"

text \<open>A number in a condition: \<open>undefined\<close>, \<open>0\<close> and \<open>NaN\<close> are falsy.\<close>

definition truthy_num :: "jsnum option \<Rightarrow> bool" where
  "truthy_num v = (case v of None \<Rightarrow> False | Some x \<Rightarrow> x \<noteq> NaN \<and> x \<noteq> Fin 0)"

definition str_length :: "string \<Rightarrow> jsnum" where
  "str_length s = Fin (of_nat (length s))"

definition isString_checks :: "string \<Rightarrow> StringValidationOptions \<Rightarrow> error + string" where
  "isString_checks str opts =
    (if length str = 0 then Inl StringEmpty
     else if \<not> truthy (read (allowWhitespaceOnly opts)) \<and> length (trim str) = 0
       then Inl StringWhitespaceOnly
     else if truthy_num (read (maxLength opts)) \<and> jgt (str_length str) (the (read (maxLength opts)))
       then Inl (StringTooLong (length str) (the (read (maxLength opts))))
     else if \<not> truthy (read (allowSpecialChars opts)) \<and> list_ex is_control str
       then Inl StringControlChars
     else Inr str)"

definition isString :: "jsval \<Rightarrow> StringValidationOptions option \<Rightarrow> error + string" where
  "isString str options =
    (let opts = merged_string options in
     if str = Undefined \<or> str = Null then Inl StringRequired
     else case str of
       Str s \<Rightarrow> isString_checks s opts
     | _ \<Rightarrow> Inl TypeMustBeString)"

section \<open>The validation pipeline as the specification words it\<close>

text \<open>
  A check looks at the candidate and the merged configuration and either fails with a
  failure descriptor, ends validation as a pass (the bypass of the NaN and infinity
  policies), or hands over to the next check. The pipeline runs a list of checks in
  order and stops at the first one that does not hand over.
\<close>

datatype verdict = Fails error | Bypass | Continue

fun run_checks :: "('v \<Rightarrow> 'c \<Rightarrow> verdict) list \<Rightarrow> 'v \<Rightarrow> 'c \<Rightarrow> error option" where
  "run_checks [] v c = None"
| "run_checks (k # ks) v c =
     (case k v c of Fails e \<Rightarrow> Some e | Bypass \<Rightarrow> None | Continue \<Rightarrow> run_checks ks v c)"

definition on_number :: "(jsnum \<Rightarrow> verdict) \<Rightarrow> jsval \<Rightarrow> verdict" where
  "on_number f v = (case v of Num x \<Rightarrow> f x | _ \<Rightarrow> Continue)"

definition presence_check :: "jsval \<Rightarrow> NumberValidationOptions \<Rightarrow> verdict" where
  "presence_check v c = (if v = Undefined \<or> v = Null then Fails NumberRequired else Continue)"

definition type_check :: "jsval \<Rightarrow> NumberValidationOptions \<Rightarrow> verdict" where
  "type_check v c = (case v of Num _ \<Rightarrow> Continue | _ \<Rightarrow> Fails TypeMustBeNumber)"

definition nan_policy :: "jsval \<Rightarrow> NumberValidationOptions \<Rightarrow> verdict" where
  "nan_policy v c = on_number (\<lambda>x.
     if isNaN x then (if truthy (read (allowNaN c)) then Bypass else Fails NumberNaN)
     else Continue) v"

definition infinity_policy :: "jsval \<Rightarrow> NumberValidationOptions \<Rightarrow> verdict" where
  "infinity_policy v c = on_number (\<lambda>x.
     if \<not> isFinite x then (if truthy (read (allowInfinity c)) then Bypass else Fails NumberInfinite)
     else Continue) v"

definition zero_policy :: "jsval \<Rightarrow> NumberValidationOptions \<Rightarrow> verdict" where
  "zero_policy v c = on_number (\<lambda>x.
     if strict_eq x (Fin 0) \<and> \<not> truthy (read (allowZero c)) then Fails NumberZero
     else Continue) v"

definition sign_policy :: "jsval \<Rightarrow> NumberValidationOptions \<Rightarrow> verdict" where
  "sign_policy v c = on_number (\<lambda>x.
     if jlt x (Fin 0) \<and> \<not> truthy (read (allowNegative c)) then Fails NumberNegative
     else Continue) v"

definition minimum_check :: "jsval \<Rightarrow> NumberValidationOptions \<Rightarrow> verdict" where
  "minimum_check v c = on_number (\<lambda>x.
     case read (min_value c) of
       None \<Rightarrow> Continue
     | Some m \<Rightarrow> if jlt x m then Fails (BelowMinimum x m) else Continue) v"

definition maximum_check :: "jsval \<Rightarrow> NumberValidationOptions \<Rightarrow> verdict" where
  "maximum_check v c = on_number (\<lambda>x.
     case read (max_value c) of
       None \<Rightarrow> Continue
     | Some m \<Rightarrow> if jgt x m then Fails (AboveMaximum x m) else Continue) v"

definition numeric_checks :: "(jsval \<Rightarrow> NumberValidationOptions \<Rightarrow> verdict) list" where
  "numeric_checks = [presence_check, type_check, nan_policy, infinity_policy,
     zero_policy, sign_policy, minimum_check, maximum_check]"

definition on_string :: "(string \<Rightarrow> verdict) \<Rightarrow> jsval \<Rightarrow> verdict" where
  "on_string f v = (case v of Str s \<Rightarrow> f s | _ \<Rightarrow> Continue)"

definition text_presence_check :: "jsval \<Rightarrow> StringValidationOptions \<Rightarrow> verdict" where
  "text_presence_check v c = (if v = Undefined \<or> v = Null then Fails StringRequired else Continue)"

definition text_type_check :: "jsval \<Rightarrow> StringValidationOptions \<Rightarrow> verdict" where
  "text_type_check v c = (case v of Str _ \<Rightarrow> Continue | _ \<Rightarrow> Fails TypeMustBeString)"

definition emptiness_check :: "jsval \<Rightarrow> StringValidationOptions \<Rightarrow> verdict" where
  "emptiness_check v c = on_string (\<lambda>s. if s = [] then Fails StringEmpty else Continue) v"

definition whitespace_policy :: "jsval \<Rightarrow> StringValidationOptions \<Rightarrow> verdict" where
  "whitespace_policy v c = on_string (\<lambda>s.
     if trim s = [] \<and> \<not> truthy (read (allowWhitespaceOnly c)) then Fails StringWhitespaceOnly
     else Continue) v"

definition length_check :: "jsval \<Rightarrow> StringValidationOptions \<Rightarrow> verdict" where
  "length_check v c = on_string (\<lambda>s.
     case read (maxLength c) of
       None \<Rightarrow> Continue
     | Some m \<Rightarrow>
         if m \<noteq> NaN \<and> m \<noteq> Fin 0 \<and> jgt (str_length s) m then Fails (StringTooLong (length s) m)
         else Continue) v"

definition control_policy :: "jsval \<Rightarrow> StringValidationOptions \<Rightarrow> verdict" where
  "control_policy v c = on_string (\<lambda>s.
     if list_ex is_control s \<and> \<not> truthy (read (allowSpecialChars c)) then Fails StringControlChars
     else Continue) v"

definition textual_checks :: "(jsval \<Rightarrow> StringValidationOptions \<Rightarrow> verdict) list" where
  "textual_checks = [text_presence_check, text_type_check, emptiness_check,
     whitespace_policy, length_check, control_policy]"

definition failure_of :: "error + 'a \<Rightarrow> error option" where
  "failure_of r = (case r of Inl e \<Rightarrow> Some e | Inr _ \<Rightarrow> None)"

section \<open>Classification\<close>

definition isEven :: "jsval \<Rightarrow> NumberValidationOptions option \<Rightarrow> bool outcome" where
  "isEven num options = tryCatch
     (case isNumber num options of
        Inl e \<Rightarrow> Inl e
      | Inr x \<Rightarrow> Inr (strict_eq (jrem x (Fin 2)) (Fin 0)))"

definition isOdd :: "jsval \<Rightarrow> NumberValidationOptions option \<Rightarrow> bool outcome" where
  "isOdd num options = tryCatch
     (case isNumber num options of
        Inl e \<Rightarrow> Inl e
      | Inr x \<Rightarrow> Inr (\<not> strict_eq (jrem x (Fin 2)) (Fin 0)))"

section \<open>Binary64 rounding\<close>

text \<open>
  The result of an arithmetic operation is the exact result rounded to the nearest
  binary64 value, ties to the even significand. \<open>ilog2 x\<close> is the binade of \<open>x\<close> (the
  \<open>e\<close> with \<open>2^e \<le> |x| < 2^(e+1)\<close>); \<open>ulp x\<close> is the spacing of the binary64 values there
  (53 significant bits, subnormal below \<open>2^-1022\<close>); a result of magnitude \<open>2^1024\<close> or
  more is an infinity.
\<close>

definition ilog2 :: "rat \<Rightarrow> int" where
  "ilog2 x = (let (p, q) = quotient_of x; e = bitlen \<bar>p\<bar> - bitlen q
              in if 2 powi e \<le> \<bar>x\<bar> then e else e - 1)"

definition round_half_even :: "rat \<Rightarrow> int" where
  "round_half_even q = (let f = \<lfloor>q\<rfloor>; d = q - of_int f
     in if d < 1 / 2 then f else if 1 / 2 < d then f + 1 else if even f then f else f + 1)"

definition ulp :: "rat \<Rightarrow> rat" where
  "ulp x = 2 powi (max (ilog2 x) (- 1022) - 52)"

definition fl :: "rat \<Rightarrow> jsnum" where
  "fl x = (if x = 0 then Fin 0
     else let r = of_int (round_half_even (\<bar>x\<bar> / ulp x)) * ulp x
          in if 2 powi 1024 \<le> r then (if x < 0 then NegInf else PosInf)
             else Fin (if x < 0 then - r else r))"

text \<open>The rationals that are binary64 values: the numbers a program can hold.\<close>

definition is_double :: "rat \<Rightarrow> bool" where
  "is_double x = (x = 0 \<or> (of_int \<lfloor>\<bar>x\<bar> / ulp x\<rfloor> = \<bar>x\<bar> / ulp x \<and> \<bar>x\<bar> < 2 powi 1024))"

section \<open>Arithmetic\<close>

text \<open>
  \<open>a + b\<close>, \<open>a * b\<close> and \<open>a / b\<close> on numbers: the exact result rounded, with the IEEE rules
  for NaN and the infinities. A zero divisor is taken as \<open>+0\<close>; the code divides only by
  the length of a non-empty array.
\<close>

fun jadd :: "jsnum \<Rightarrow> jsnum \<Rightarrow> jsnum" where
  "jadd (Fin x) (Fin y) = fl (x + y)"
| "jadd NaN _ = NaN"
| "jadd _ NaN = NaN"
| "jadd PosInf NegInf = NaN"
| "jadd NegInf PosInf = NaN"
| "jadd PosInf _ = PosInf"
| "jadd _ PosInf = PosInf"
| "jadd NegInf _ = NegInf"
| "jadd _ NegInf = NegInf"

fun jmul :: "jsnum \<Rightarrow> jsnum \<Rightarrow> jsnum" where
  "jmul (Fin x) (Fin y) = fl (x * y)"
| "jmul NaN _ = NaN"
| "jmul _ NaN = NaN"
| "jmul (Fin x) b = (if x = 0 then NaN else if (x < 0) = (b = NegInf) then PosInf else NegInf)"
| "jmul a (Fin y) = (if y = 0 then NaN else if (y < 0) = (a = NegInf) then PosInf else NegInf)"
| "jmul a b = (if a = b then PosInf else NegInf)"

fun jdiv :: "jsnum \<Rightarrow> jsnum \<Rightarrow> jsnum" where
  "jdiv (Fin x) (Fin y) =
     (if y = 0 then (if x = 0 then NaN else if x < 0 then NegInf else PosInf) else fl (x / y))"
| "jdiv NaN _ = NaN"
| "jdiv _ NaN = NaN"
| "jdiv (Fin x) _ = Fin 0"
| "jdiv a (Fin y) = (if (y < 0) = (a = NegInf) then PosInf else NegInf)"
| "jdiv _ _ = NaN"

text \<open>
  \<open>Math.sqrt\<close> of a positive binary64 value, correctly rounded: with \<open>h\<close> the binade of
  the root and \<open>u\<close> the spacing there, the root is the multiple \<open>m * u\<close> nearest to the
  real square root, found from the integer square root \<open>f\<close> of \<open>x / u\<^sup>2\<close> by comparing
  \<open>x / u\<^sup>2\<close> with \<open>(f + 1/2)\<^sup>2\<close>. The root of a binary64 value lies between \<open>2^-537\<close> and
  \<open>2^512\<close>, so it neither underflows nor overflows.
\<close>

fun isqrt :: "nat \<Rightarrow> nat" where
  "isqrt n = (if n < 4 then (if n = 0 then 0 else 1)
     else let r = 2 * isqrt (n div 4) in if (r + 1) * (r + 1) \<le> n then r + 1 else r)"

definition sqrt64 :: "rat \<Rightarrow> rat" where
  "sqrt64 x = (if x \<le> 0 then 0
     else let u = 2 powi (ilog2 x div 2 - 52);
              t = x / (u * u);
              f = isqrt (nat \<lfloor>t\<rfloor>);
              half = of_nat (f * f + f) + 1 / 4;
              m = (if t < half then f else if half < t then f + 1
                   else if even f then f else f + 1)
          in of_nat m * u)"

fun Math_sqrt :: "jsnum \<Rightarrow> jsnum" where
  "Math_sqrt (Fin x) = (if x < 0 then NaN else Fin (sqrt64 x))"
| "Math_sqrt PosInf = PosInf"
| "Math_sqrt _ = NaN"

section \<open>Numeric operations\<close>

definition isArray :: "jsval \<Rightarrow> bool" where
  "isArray v = (case v of Arr _ \<Rightarrow> True | _ \<Rightarrow> False)"

subsection \<open>Aggregates\<close>

text \<open>The body of \<open>for (const num of numbers) { isNumber(num, options); total += num; }\<close>.\<close>

fun sum_loop :: "NumberValidationOptions option \<Rightarrow> jsnum \<Rightarrow> jsval list \<Rightarrow> error + jsnum" where
  "sum_loop options tot [] = Inr tot"
| "sum_loop options tot (num # rest) =
     (case isNumber num options of
        Inl e \<Rightarrow> Inl e
      | Inr x \<Rightarrow> sum_loop options (jadd tot x) rest)"

definition sum_of :: "jsval \<Rightarrow> NumberValidationOptions option \<Rightarrow> jsnum outcome" where
  "sum_of numbers options = tryCatch
     (case numbers of
        Arr xs \<Rightarrow> if length xs = 0 then Inl ArrayEmpty else sum_loop options (Fin 0) xs
      | _ \<Rightarrow> Inl InputMustBeArray)"

definition average :: "jsval \<Rightarrow> NumberValidationOptions option \<Rightarrow> jsnum outcome" where
  "average numbers options = tryCatch
     (case numbers of
        Arr xs \<Rightarrow>
          if length xs = 0 then Inl ArrayEmpty
          else (case sum_of numbers options of
                  Failure e \<Rightarrow> Inl e
                | Success tot \<Rightarrow> Inr (jdiv tot (Fin (of_nat (length xs)))))
      | _ \<Rightarrow> Inl InputMustBeArray)"

text \<open>
  \<open>min\<close> and \<open>max\<close> start from \<open>numbers[0]\<close> and compare every validated element with the
  running extreme. The running extreme is compared only after the first element has
  passed validation, so it is a number whenever it is looked at.
\<close>

definition lt_value :: "jsnum \<Rightarrow> jsval \<Rightarrow> bool" where
  "lt_value x v = (case v of Num m \<Rightarrow> jlt x m | _ \<Rightarrow> False)"

definition gt_value :: "jsnum \<Rightarrow> jsval \<Rightarrow> bool" where
  "gt_value x v = (case v of Num m \<Rightarrow> jgt x m | _ \<Rightarrow> False)"

fun min_loop :: "NumberValidationOptions option \<Rightarrow> jsval \<Rightarrow> jsval list \<Rightarrow> error + jsval" where
  "min_loop options minValue [] = Inr minValue"
| "min_loop options minValue (num # rest) =
     (case isNumber num options of
        Inl e \<Rightarrow> Inl e
      | Inr x \<Rightarrow> min_loop options (if lt_value x minValue then num else minValue) rest)"

fun max_loop :: "NumberValidationOptions option \<Rightarrow> jsval \<Rightarrow> jsval list \<Rightarrow> error + jsval" where
  "max_loop options maxValue [] = Inr maxValue"
| "max_loop options maxValue (num # rest) =
     (case isNumber num options of
        Inl e \<Rightarrow> Inl e
      | Inr x \<Rightarrow> max_loop options (if gt_value x maxValue then num else maxValue) rest)"

definition min_of :: "jsval \<Rightarrow> NumberValidationOptions option \<Rightarrow> jsval outcome" where
  "min_of numbers options = tryCatch
     (case numbers of
        Arr xs \<Rightarrow> if length xs = 0 then Inl ArrayEmpty else min_loop options (hd xs) xs
      | _ \<Rightarrow> Inl InputMustBeArray)"

definition max_of :: "jsval \<Rightarrow> NumberValidationOptions option \<Rightarrow> jsval outcome" where
  "max_of numbers options = tryCatch
     (case numbers of
        Arr xs \<Rightarrow> if length xs = 0 then Inl ArrayEmpty else max_loop options (hd xs) xs
      | _ \<Rightarrow> Inl InputMustBeArray)"

subsection \<open>Factorial, Fibonacci, primality\<close>

text \<open>
  The options passed on are \<open>{ ...options, allowNegative: false, allowZero: ... }\<close>. The
  loop counters take integer values far below \<open>2^53\<close>, where \<open>i++\<close> and \<open>i += 2\<close> are exact.
  A value that passed \<open>Number.isInteger\<close> is finite, which the last \<open>case\<close> of each
  operation spells out; in \<open>isPrime\<close> a root that is not finite would leave the loop at
  once (\<open>3 <= NaN\<close> is false).
\<close>

definition with_sign_policy :: "NumberValidationOptions option \<Rightarrow> bool \<Rightarrow> NumberValidationOptions option" where
  "with_sign_policy options zero = Some ((spread_undefined options)
     \<lparr> allowNegative := Present (Some False), allowZero := Present (Some zero) \<rparr>)"

function factorial_loop :: "rat \<Rightarrow> rat \<Rightarrow> jsnum \<Rightarrow> jsnum" where
  "factorial_loop num i result =
     (if i \<le> num then factorial_loop num (i + 1) (jmul result (Fin i)) else result)"
  by pat_completeness auto
termination
  by (relation "measure (\<lambda>(num, i, result). nat (\<lfloor>num - i\<rfloor> + 1))") (auto simp: nat_less_iff diff_diff_eq[symmetric])

definition factorial :: "jsval \<Rightarrow> NumberValidationOptions option \<Rightarrow> jsnum outcome" where
  "factorial num options = tryCatch
     (case isNumber num (with_sign_policy options True) of
        Inl e \<Rightarrow> Inl e
      | Inr x \<Rightarrow>
          if \<not> isInteger x then Inl FactorialOnlyIntegers
          else if jgt x (Fin 170) then Inl FactorialTooLarge
          else if strict_eq x (Fin 0) \<or> strict_eq x (Fin 1) then Inr (Fin 1)
          else (case x of Fin n \<Rightarrow> Inr (factorial_loop n 2 (Fin 1)) | _ \<Rightarrow> Inl FactorialOnlyIntegers))"

function fibonacci_loop :: "rat \<Rightarrow> rat \<Rightarrow> jsnum \<Rightarrow> jsnum \<Rightarrow> jsnum" where
  "fibonacci_loop num i a b =
     (if i \<le> num then fibonacci_loop num (i + 1) b (jadd a b) else b)"
  by pat_completeness auto
termination
  by (relation "measure (\<lambda>(num, i, a, b). nat (\<lfloor>num - i\<rfloor> + 1))") (auto simp: nat_less_iff diff_diff_eq[symmetric])

definition fibonacci :: "jsval \<Rightarrow> NumberValidationOptions option \<Rightarrow> jsnum outcome" where
  "fibonacci num options = tryCatch
     (case isNumber num (with_sign_policy options True) of
        Inl e \<Rightarrow> Inl e
      | Inr x \<Rightarrow>
          if \<not> isInteger x then Inl FibonacciOnlyIntegers
          else if jgt x (Fin 78) then Inl FibonacciTooLarge
          else if jle x (Fin 1) then Inr x
          else (case x of Fin n \<Rightarrow> Inr (fibonacci_loop n 2 (Fin 0) (Fin 1)) | _ \<Rightarrow> Inl FibonacciOnlyIntegers))"

function isPrime_loop :: "rat \<Rightarrow> rat \<Rightarrow> rat \<Rightarrow> bool" where
  "isPrime_loop num sq i =
     (if i \<le> sq then
        (if strict_eq (jrem (Fin num) (Fin i)) (Fin 0) then False
         else isPrime_loop num sq (i + 2))
      else True)"
  by pat_completeness auto
termination
  by (relation "measure (\<lambda>(num, sq, i). nat (\<lfloor>sq - i\<rfloor> + 1))") (auto simp: nat_less_iff diff_diff_eq[symmetric])

definition isPrime :: "jsval \<Rightarrow> NumberValidationOptions option \<Rightarrow> bool outcome" where
  "isPrime num options = tryCatch
     (case isNumber num (with_sign_policy options False) of
        Inl e \<Rightarrow> Inl e
      | Inr x \<Rightarrow>
          if \<not> isInteger x then Inl PrimeOnlyIntegers
          else if strict_eq x (Fin 1) then Inr False
          else if strict_eq x (Fin 2) then Inr True
          else if strict_eq (jrem x (Fin 2)) (Fin 0) then Inr False
          else (case x of
                  Fin n \<Rightarrow>
                    (case Math_sqrt x of
                       Fin s \<Rightarrow> Inr (isPrime_loop n s 3)
                     | _ \<Rightarrow> Inr True)
                | _ \<Rightarrow> Inl PrimeOnlyIntegers))"

section \<open>The network adapter\<close>

text \<open>
  \<open>safeFetch\<close> awaits two promises: the one \<open>fetch\<close> returns and the one \<open>data.json()\<close>
  returns. A promise settles: it resolves with a value or it rejects with a fault. What
  the function reads of a response is its flag \<open>ok\<close> and what decoding its body settles to.
\<close>

datatype ('f, 'a) promise = Resolves 'a | Rejects 'f

record ('f, 'j) Response =
  ok :: bool
  status :: nat
  json :: "('f, 'j) promise"

text \<open>
  Modelled from the spec: \<open>tryPromise\<close> of the package \<open>try-error\<close>, which is not part of the
  sources; the suspending form of the safe-execution adapter. It awaits the promise and
  returns the pair \<open>[value, null]\<close> or \<open>[null, fault]\<close>: a value of a sum, \<open>Inl\<close> the fault. A
  fault is an error object, which the test \<open>if (fetchError)\<close> finds truthy.
\<close>

definition tryPromise :: "('f, 'a) promise \<Rightarrow> 'f + 'a" where
  "tryPromise p = (case p of Resolves v \<Rightarrow> Inr v | Rejects f \<Rightarrow> Inl f)"

text \<open>
  What the function returns: the decoded body or the response object itself. The function
  is \<open>async\<close>: a \<open>throw\<close> rejects the promise it returns, which is \<open>Inl\<close> here, the fault
  raised to the caller. \<open>returnJson\<close> is an optional parameter with the default \<open>true\<close>.
\<close>

datatype ('f, 'j) fetched = Decoded 'j | Raw "('f, 'j) Response"

definition safeFetch :: "('f, ('f, 'j) Response) promise \<Rightarrow> bool option \<Rightarrow> 'f + ('f, 'j) fetched" where
  "safeFetch fetch_call returnJson =
    (case tryPromise fetch_call of
       Inl fetchError \<Rightarrow> Inl fetchError
     | Inr data \<Rightarrow>
         if \<not> ok data then Inr (Raw data)
         else if (case returnJson of None \<Rightarrow> True | Some b \<Rightarrow> b) then
           (case tryPromise (json data) of
              Inl jsonError \<Rightarrow> Inl jsonError
            | Inr j \<Rightarrow> Inr (Decoded j))
         else Inr (Raw data))"

definition not_found :: "(string, nat) Response" where
  "not_found = \<lparr> ok = False, status = 404, json = Resolves 0 \<rparr>"

definition found :: "(string, nat) Response" where
  "found = \<lparr> ok = True, status = 200, json = Resolves 7 \<rparr>"

definition malformed :: "(string, nat) Response" where
  "malformed = \<lparr> ok = True, status = 200, json = Rejects ''Unexpected token'' \<rparr>"

section \<open>Conversion between numbers and text\<close>

subsection \<open>Decimal digits\<close>

definition digit_char :: "nat \<Rightarrow> char" where
  "digit_char d = char_of (48 + d)"

fun decimal :: "nat \<Rightarrow> string" where
  "decimal n = (if n < 10 then [digit_char n] else decimal (n div 10) @ [digit_char (n mod 10)])"

definition is_digit :: "char \<Rightarrow> bool" where
  "is_digit c = (48 \<le> code_unit c \<and> code_unit c \<le> 57)"

definition digits_value :: "nat \<Rightarrow> string \<Rightarrow> nat" where
  "digits_value base ds = foldl (\<lambda>a c. base * a + (code_unit c - 48)) 0 ds"

subsection \<open>\<open>Number.prototype.toFixed\<close>\<close>

text \<open>
  For a magnitude of \<open>10^21\<close> or more \<open>toFixed\<close> returns what \<open>String\<close> returns: the shortest
  digit string \<open>s\<close> (\<open>k\<close> digits) with an exponent \<open>n\<close> such that \<open>s * 10^(n-k)\<close> rounds to the
  number, in exponent notation. Such a number is an integer with \<open>N \<ge> 22\<close> digits; for each
  \<open>k\<close> the two multiples of \<open>10^(N-k)\<close> around it are tried, and the nearer is taken when
  both round to it.
\<close>

definition pick_digits :: "rat \<Rightarrow> nat \<Rightarrow> nat \<Rightarrow> nat option" where
  "pick_digits x N k =
    (let p = 10 ^ (N - k);
         lo = nat \<lfloor>x / of_nat p\<rfloor>;
         hi = lo + 1;
         ok_lo = (fl (of_nat (lo * p)) = Fin x);
         ok_hi = (fl (of_nat (hi * p)) = Fin x);
         d_lo = x - of_nat (lo * p);
         d_hi = of_nat (hi * p) - x
     in if ok_lo \<and> ok_hi then
          Some (if d_lo < d_hi then lo else if d_hi < d_lo then hi else if even lo then lo else hi)
        else if ok_lo then Some lo
        else if ok_hi then Some hi
        else None)"

fun shortest_from :: "rat \<Rightarrow> nat \<Rightarrow> nat \<Rightarrow> nat \<Rightarrow> nat \<times> nat" where
  "shortest_from x N k 0 = (nat \<lfloor>x / of_nat (10 ^ (N - k))\<rfloor>, N)"
| "shortest_from x N k (Suc fuel) =
    (case pick_digits x N k of
       Some s \<Rightarrow> if s = 10 ^ k then (10 ^ (k - 1), N + 1) else (s, N)
     | None \<Rightarrow> shortest_from x N (k + 1) fuel)"

definition toString_large :: "rat \<Rightarrow> string" where
  "toString_large x =
    (let N = length (decimal (nat \<lfloor>x\<rfloor>));
         (s, n) = shortest_from x N 1 17;
         ds = decimal s
     in (if length ds = 1 then ds else hd ds # CHR ''.'' # tl ds) @ ''e+'' @ decimal (n - 1))"

text \<open>
  Below \<open>10^21\<close>: the integer \<open>n\<close> with \<open>n / 10^f\<close> nearest to the magnitude, the larger one of
  two; its digits, padded with zeros to \<open>f + 1\<close> digits, and a point before the last \<open>f\<close>.
\<close>

definition toFixed_digits :: "rat \<Rightarrow> nat \<Rightarrow> string" where
  "toFixed_digits x f =
    (let n = nat \<lfloor>x * 10 ^ f + 1 / 2\<rfloor>;
         m = decimal n
     in if f = 0 then m
        else let m' = replicate (f + 1 - length m) CHR ''0'' @ m;
                 k = length m'
             in take (k - f) m' @ ''.'' @ drop (k - f) m')"

fun number_toFixed :: "jsnum \<Rightarrow> nat \<Rightarrow> string" where
  "number_toFixed NaN f = ''NaN''"
| "number_toFixed PosInf f = ''Infinity''"
| "number_toFixed NegInf f = ''-Infinity''"
| "number_toFixed (Fin x) f =
    (if x < 0 then ''-'' else '''') @
    (if 10 ^ 21 \<le> \<bar>x\<bar> then toString_large \<bar>x\<bar> else toFixed_digits \<bar>x\<bar> f)"

text \<open>
  \<open>toFixed(num, decimals = 0, options)\<close>: \<open>None\<close> is a call that leaves \<open>decimals\<close> out.
\<close>

definition toFixed :: "jsval \<Rightarrow> jsnum option \<Rightarrow> NumberValidationOptions option \<Rightarrow> string outcome" where
  "toFixed num decimals options = tryCatch
    (case isNumber num options of
       Inl e \<Rightarrow> Inl e
     | Inr x \<Rightarrow>
         (let d = (case decimals of None \<Rightarrow> Fin 0 | Some v \<Rightarrow> v) in
          if \<not> isInteger d \<or> jlt d (Fin 0) \<or> jgt d (Fin 20) then Inl DecimalsOutOfRange
          else (case d of
                  Fin f \<Rightarrow> Inr (number_toFixed x (nat \<lfloor>f\<rfloor>))
                | _ \<Rightarrow> Inl DecimalsOutOfRange)))"

subsection \<open>\<open>Number(string)\<close>\<close>

text \<open>
  The conversion trims white space; the empty string is 0; then come the literals with a
  radix prefix (\<open>0x\<close>, \<open>0o\<close>, \<open>0b\<close>, unsigned), and the decimal literals: an optional sign,
  then \<open>Infinity\<close> or digits with an optional fraction and an optional exponent, at least
  one digit before or after the point. Anything else is NaN. The value is the exact value
  of the literal, rounded.
\<close>

definition is_radix_digit :: "nat \<Rightarrow> char \<Rightarrow> bool" where
  "is_radix_digit base c = (let n = code_unit c in
     (48 \<le> n \<and> n < 48 + min base 10)
     \<or> (base = 16 \<and> ((65 \<le> n \<and> n \<le> 70) \<or> (97 \<le> n \<and> n \<le> 102))))"

definition radix_digit_value :: "char \<Rightarrow> nat" where
  "radix_digit_value c = (let n = code_unit c in
     if n \<le> 57 then n - 48 else if n \<le> 70 then n - 55 else n - 87)"

definition radix_literal :: "nat \<Rightarrow> string \<Rightarrow> jsnum" where
  "radix_literal base ds =
    (if ds \<noteq> [] \<and> list_all (is_radix_digit base) ds
     then fl (of_nat (foldl (\<lambda>a c. base * a + radix_digit_value c) 0 ds))
     else NaN)"

definition exponent_part :: "string \<Rightarrow> int option" where
  "exponent_part r =
    (case r of
       [] \<Rightarrow> Some 0
     | e # ds \<Rightarrow>
         if e = CHR ''e'' \<or> e = CHR ''E'' then
           (let (neg, ds') = (case ds of
                                c # t \<Rightarrow> if c = CHR ''-'' then (True, t)
                                         else if c = CHR ''+'' then (False, t) else (False, ds)
                              | [] \<Rightarrow> (False, ds))
            in if ds' \<noteq> [] \<and> list_all is_digit ds'
               then Some (if neg then - int (digits_value 10 ds') else int (digits_value 10 ds'))
               else None)
         else None)"

definition unsigned_decimal :: "string \<Rightarrow> rat option" where
  "unsigned_decimal s =
    (let ip = takeWhile is_digit s;
         r1 = dropWhile is_digit s;
         (fp, r2) = (case r1 of
                       c # t \<Rightarrow> if c = CHR ''.'' then (takeWhile is_digit t, dropWhile is_digit t)
                                else ([], r1)
                     | [] \<Rightarrow> ([], r1))
     in if ip = [] \<and> fp = [] then None
        else (case exponent_part r2 of
                None \<Rightarrow> None
              | Some e \<Rightarrow>
                  Some (of_nat (digits_value 10 (ip @ fp)) * 10 powi (e - int (length fp)))))"

definition decimal_literal :: "string \<Rightarrow> jsnum" where
  "decimal_literal s =
    (let (neg, u) = (case s of
                       c # t \<Rightarrow> if c = CHR ''-'' then (True, t)
                                else if c = CHR ''+'' then (False, t) else (False, s)
                     | [] \<Rightarrow> (False, s))
     in if u = ''Infinity'' then (if neg then NegInf else PosInf)
        else (case unsigned_decimal u of
                None \<Rightarrow> NaN
              | Some v \<Rightarrow> fl (if neg then - v else v)))"

definition string_to_number :: "string \<Rightarrow> jsnum" where
  "string_to_number str =
    (let t = trim str in
     if t = [] then Fin 0
     else if take 2 t = ''0x'' \<or> take 2 t = ''0X'' then radix_literal 16 (drop 2 t)
     else if take 2 t = ''0o'' \<or> take 2 t = ''0O'' then radix_literal 8 (drop 2 t)
     else if take 2 t = ''0b'' \<or> take 2 t = ''0B'' then radix_literal 2 (drop 2 t)
     else decimal_literal t)"

definition parseNumber :: "jsval \<Rightarrow> NumberValidationOptions option \<Rightarrow> jsnum outcome" where
  "parseNumber str options = tryCatch
    (case str of
       Str s \<Rightarrow>
         if length (trim s) = 0 then Inl StringCannotBeEmpty
         else (let num = string_to_number s in
               if isNaN num then Inl NotConvertible
               else isNumber (Num num) options)
     | _ \<Rightarrow> Inl InputMustBeString)"

section \<open>Case transforms\<close>














section \<open>Predicates used in the statements\<close>

definition valid_number :: "NumberValidationOptions option \<Rightarrow> jsval \<Rightarrow> bool" where
  "valid_number options x = (case isNumber x options of Inl _ \<Rightarrow> False | Inr _ \<Rightarrow> True)"

definition succeeds :: "'a outcome \<Rightarrow> bool" where
  "succeeds r = (case r of Success _ \<Rightarrow> True | Failure _ \<Rightarrow> False)"

text \<open>A prime number, as the specification means it: above 1 and with no divisor in between.\<close>

definition prime_number :: "nat \<Rightarrow> bool" where
  "prime_number n = (1 < n \<and> (\<forall>d\<in>{2..<n}. \<not> d dvd n))"

text \<open>What the loop of \<open>isPrime\<close> tests: the odd numbers from 3 whose square is at most \<open>n\<close>.\<close>

definition no_odd_divisor_up_to_root :: "nat \<Rightarrow> bool" where
  "no_odd_divisor_up_to_root n = (\<forall>i\<in>{3..n}. odd i \<and> i * i \<le> n \<longrightarrow> \<not> i dvd n)"

text \<open>The round trip of the specification: \<open>parseNumber\<close> on the success value of \<open>toFixed\<close>.\<close>

definition parse_after_toFixed :: "jsnum \<Rightarrow> jsnum outcome" where
  "parse_after_toFixed n =
    (case toFixed (Num n) None None of
       Failure e \<Rightarrow> Failure e
     | Success s \<Rightarrow> parseNumber (Str s) None)"

definition round_half_away :: "rat \<Rightarrow> int" where
  "round_half_away x = (if x < 0 then - \<lfloor>- x + 1 / 2\<rfloor> else \<lfloor>x + 1 / 2\<rfloor>)"


text \<open>
  The inputs that the specification calls negative or non-integer, and non-positive or
  non-integer: the tests \<open>num < 0\<close>, \<open>num <= 0\<close> and \<open>!Number.isInteger(num)\<close> of a number; a
  value that is not a number (\<open>typeof num !== "number"\<close>) is not an integer.
\<close>

definition typeof_number :: "jsval \<Rightarrow> bool" where
  "typeof_number v = (case v of Num _ \<Rightarrow> True | _ \<Rightarrow> False)"

definition negative_or_non_integer :: "jsval \<Rightarrow> bool" where
  "negative_or_non_integer v =
     (case v of Num x \<Rightarrow> jlt x (Fin 0) \<or> \<not> isInteger x | _ \<Rightarrow> True)"

definition non_positive_or_non_integer :: "jsval \<Rightarrow> bool" where
  "non_positive_or_non_integer v =
     (case v of Num x \<Rightarrow> jle x (Fin 0) \<or> \<not> isInteger x | _ \<Rightarrow> True)"

text \<open>The two magnitude-cap failures; every other failure of the two operations is an
  invalid-input failure.\<close>

definition cap_failure :: "error \<Rightarrow> bool" where
  "cap_failure e = (e = FactorialTooLarge \<or> e = FibonacciTooLarge)"

section \<open>Configurations used in the examples\<close>

definition allow_special :: NumberValidationOptions where
  "allow_special = no_number_options \<lparr> allowNaN := Present (Some True),
     allowInfinity := Present (Some True), allowZero := Present (Some False),
     max_value := Present (Some (Fin 10)) \<rparr>"

definition min_unset :: NumberValidationOptions where
  "min_unset = no_number_options \<lparr> min_value := Present None \<rparr>"

definition negative_unset :: NumberValidationOptions where
  "negative_unset = no_number_options \<lparr> allowNegative := Present None \<rparr>"

definition maxLength_zero :: StringValidationOptions where
  "maxLength_zero = \<lparr> maxLength = Present (Some (Fin 0)), allowWhitespaceOnly = Absent,
     allowSpecialChars = Absent \<rparr>"

definition allow_nan :: NumberValidationOptions where
  "allow_nan = no_number_options \<lparr> allowNaN := Present (Some True) \<rparr>"


section \<open>Properties\<close>

subsection \<open>Binary64 rounding\<close>

lemma ilog2_bounds:
  assumes "x \<noteq> 0"
  shows "2 powi (ilog2 x) \<le> \<bar>x\<bar>" and "\<bar>x\<bar> < 2 powi (ilog2 x + 1)"
proof -
  obtain p q where pq: "quotient_of x = (p, q)" by (cases "quotient_of x")
  then have q: "0 < q" and x: "x = of_int p / of_int q"
    by (auto dest: quotient_of_denom_pos quotient_of_div)
  from assms x have p: "0 < \<bar>p\<bar>" by auto
  define bp where "bp = bitlen \<bar>p\<bar>"
  define bq where "bq = bitlen q"
  from bitlen_bounds[OF p] have pb: "2 ^ nat (bp - 1) \<le> \<bar>p\<bar>" "\<bar>p\<bar> < 2 ^ nat bp"
    by (simp_all add: bp_def)
  from bitlen_bounds[OF q] have qb: "2 ^ nat (bq - 1) \<le> q" "q < 2 ^ nat bq"
    by (simp_all add: bq_def)
  have bp1: "1 \<le> bp" using p by (simp add: bp_def bitlen_alt_def)
  have bq1: "1 \<le> bq" using q by (simp add: bq_def bitlen_alt_def)
  have ax: "\<bar>x\<bar> = of_int \<bar>p\<bar> / of_int q" using q by (simp add: x)
  have pr: "(2::rat) powi (bp - 1) \<le> of_int \<bar>p\<bar>" "of_int \<bar>p\<bar> < (2::rat) powi bp"
  proof -
    have "(2::rat) powi (bp - 1) = of_int (2 ^ nat (bp - 1))"
      using bp1 by (simp add: power_int_def)
    also have "\<dots> \<le> of_int \<bar>p\<bar>" using pb(1) by (simp only: of_int_le_iff)
    finally show "(2::rat) powi (bp - 1) \<le> of_int \<bar>p\<bar>" .
    have "(of_int \<bar>p\<bar> :: rat) < of_int (2 ^ nat bp)" using pb(2) by (simp only: of_int_less_iff)
    also have "\<dots> = 2 powi bp" using bp1 by (simp add: power_int_def)
    finally show "of_int \<bar>p\<bar> < (2::rat) powi bp" .
  qed
  have qr: "(2::rat) powi (bq - 1) \<le> of_int q" "of_int q < (2::rat) powi bq"
  proof -
    have "(2::rat) powi (bq - 1) = of_int (2 ^ nat (bq - 1))"
      using bq1 by (simp add: power_int_def)
    also have "\<dots> \<le> of_int q" using qb(1) by (simp only: of_int_le_iff)
    finally show "(2::rat) powi (bq - 1) \<le> of_int q" .
    have "(of_int q :: rat) < of_int (2 ^ nat bq)" using qb(2) by (simp only: of_int_less_iff)
    also have "\<dots> = 2 powi bq" using bq1 by (simp add: power_int_def)
    finally show "of_int q < (2::rat) powi bq" .
  qed
  have qpos: "(0::rat) < of_int q" using q by simp
  have lower: "2 powi (bp - bq - 1) \<le> \<bar>x\<bar>"
  proof -
    have "(2::rat) powi (bp - bq - 1) = 2 powi (bp - 1) / 2 powi bq"
      by (simp add: power_int_diff)
    also have "\<dots> \<le> of_int \<bar>p\<bar> / 2 powi bq"
      using pr(1) by (simp add: divide_right_mono)
    also have "\<dots> \<le> of_int \<bar>p\<bar> / of_int q"
      using qr(2) qpos by (intro divide_left_mono) (auto intro: mult_pos_pos)
    finally show ?thesis by (simp add: ax)
  qed
  have upper: "\<bar>x\<bar> < 2 powi (bp - bq + 1)"
  proof -
    have "\<bar>x\<bar> = of_int \<bar>p\<bar> / of_int q" by (rule ax)
    also have "\<dots> < 2 powi bp / of_int q"
      using pr(2) qpos by (simp add: divide_strict_right_mono)
    also have "\<dots> \<le> 2 powi bp / 2 powi (bq - 1)"
      using qr(1) qpos by (intro divide_left_mono) (auto intro: mult_pos_pos)
    also have "\<dots> = 2 powi (bp - bq + 1)"
      by (simp add: power_int_diff power_int_add)
    finally show ?thesis .
  qed
  have il: "ilog2 x = (if 2 powi (bp - bq) \<le> \<bar>x\<bar> then bp - bq else bp - bq - 1)"
    by (simp add: ilog2_def pq bp_def bq_def Let_def)
  show "2 powi (ilog2 x) \<le> \<bar>x\<bar>"
    using lower by (simp add: il)
  show "\<bar>x\<bar> < 2 powi (ilog2 x + 1)"
    using upper by (auto simp: il not_le)
qed

lemma round_half_even_of_int [simp]: "round_half_even (of_int m) = m"
  by (simp add: round_half_even_def)

lemma fl_of_double: "is_double x \<Longrightarrow> fl x = Fin x"
proof (cases "x = 0")
  case True
  then show ?thesis by (simp add: fl_def)
next
  case False
  assume "is_double x"
  with False have m: "of_int \<lfloor>\<bar>x\<bar> / ulp x\<rfloor> = \<bar>x\<bar> / ulp x" and b: "\<bar>x\<bar> < 2 powi 1024"
    by (auto simp: is_double_def)
  have u: "ulp x \<noteq> 0" by (simp add: ulp_def)
  have "round_half_even (\<bar>x\<bar> / ulp x) = \<lfloor>\<bar>x\<bar> / ulp x\<rfloor>"
    by (metis m round_half_even_of_int)
  then have "of_int (round_half_even (\<bar>x\<bar> / ulp x)) * ulp x = of_int \<lfloor>\<bar>x\<bar> / ulp x\<rfloor> * ulp x"
    by (simp only:)
  also have "\<dots> = \<bar>x\<bar> / ulp x * ulp x" by (simp only: m)
  also have "\<dots> = \<bar>x\<bar>" using u by simp
  finally have "of_int (round_half_even (\<bar>x\<bar> / ulp x)) * ulp x = \<bar>x\<bar>" .
  then show ?thesis
    using False b by (simp add: fl_def Let_def)
qed

lemma ilog2_less:
  assumes "x \<noteq> 0" and "\<bar>x\<bar> < 2 powi k"
  shows "ilog2 x < k"
proof (rule ccontr)
  assume "\<not> ilog2 x < k"
  then have "(2::rat) powi k \<le> 2 powi (ilog2 x)"
    by (intro power_int_increasing) auto
  with ilog2_bounds(1)[OF assms(1)] assms(2) show False by simp
qed

lemma ilog2_ge:
  assumes "x \<noteq> 0" and "2 powi k \<le> \<bar>x\<bar>"
  shows "k \<le> ilog2 x"
proof (rule ccontr)
  assume "\<not> k \<le> ilog2 x"
  then have "(2::rat) powi (ilog2 x + 1) \<le> 2 powi k"
    by (intro power_int_increasing) auto
  with ilog2_bounds(2)[OF assms(1)] assms(2) show False by simp
qed

lemma safe_integer_is_double:
  assumes "\<bar>n\<bar> < 2 ^ 53"
  shows "is_double (of_int n)"
proof (cases "n = 0")
  case True
  then show ?thesis by (simp add: is_double_def)
next
  case False
  define x :: rat where "x = of_int n"
  have x0: "x \<noteq> 0" using False by (simp add: x_def)
  have ax: "\<bar>x\<bar> = of_int \<bar>n\<bar>" by (simp add: x_def)
  have "\<bar>x\<bar> < 2 powi 53"
    unfolding ax using assms by (metis of_int_less_iff of_int_numeral of_int_power power_int_numeral)
  then have k: "ilog2 x < 53" using x0 by (rule ilog2_less[rotated])
  have "(1::rat) \<le> \<bar>x\<bar>" unfolding ax using False by (simp add: of_int_abs[symmetric] del: of_int_abs) 
  then have "2 powi 0 \<le> \<bar>x\<bar>" by simp
  then have k0: "0 \<le> ilog2 x" using x0 by (rule ilog2_ge[rotated])
  define d where "d = nat (52 - ilog2 x)"
  have u: "ulp x = 1 / 2 ^ d"
    using k k0 by (simp add: ulp_def d_def max_def power_int_def inverse_eq_divide power_one_over)
  have "\<bar>x\<bar> / ulp x = of_int (\<bar>n\<bar> * 2 ^ d)"
    by (simp add: u ax)
  then have "of_int \<lfloor>\<bar>x\<bar> / ulp x\<rfloor> = \<bar>x\<bar> / ulp x"
    by (metis floor_of_int)
  moreover have "\<bar>x\<bar> < 2 powi 1024"
  proof -
    have "(2::rat) powi 53 \<le> 2 powi 1024" by (intro power_int_increasing) auto
    with \<open>\<bar>x\<bar> < 2 powi 53\<close> show ?thesis by simp
  qed
  ultimately show ?thesis by (simp add: is_double_def x_def)
qed

lemma double_fraction_small:
  assumes "is_double x" and "of_int \<lfloor>x\<rfloor> \<noteq> x"
  shows "\<bar>x\<bar> < 2 ^ 52"
proof -
  have x0: "x \<noteq> 0" using assms(2) by auto
  with assms(1) obtain m :: int where m: "\<bar>x\<bar> / ulp x = of_int m"
    by (auto simp: is_double_def)
  have u0: "ulp x \<noteq> 0" by (simp add: ulp_def)
  have k: "max (ilog2 x) (- 1022) < 52"
  proof (rule ccontr)
    assume "\<not> max (ilog2 x) (- 1022) < 52"
    then have "ulp x = of_int (2 ^ nat (max (ilog2 x) (- 1022) - 52))"
      by (simp add: ulp_def power_int_def)
    then obtain j :: int where "ulp x = of_int j" by blast
    with m u0 have "\<bar>x\<bar> = of_int (m * j)" by (simp add: field_simps)
    then have "\<bar>x\<bar> \<in> \<int>" by (metis Ints_of_int)
    then have "x \<in> \<int>" by (metis Ints_minus abs_if minus_minus)
    then show False using assms(2) by (auto elim: Ints_cases)
  qed
  then have "ilog2 x + 1 \<le> 52" by simp
  then have "(2::rat) powi (ilog2 x + 1) \<le> 2 powi 52"
    by (intro power_int_increasing) auto
  with ilog2_bounds(2)[OF x0] show ?thesis by simp
qed

lemma isNumber_number:
  "isNumber (Num x) options = isNumber_checks x (merged options)"
  by (simp add: isNumber_def)

lemma isString_string:
  "isString (Str s) options = isString_checks s (merged_string options)"
  by (simp add: isString_def)

subsection \<open>The validation pipeline\<close>

lemma run_checks_first_failure:
  "i < length ks \<Longrightarrow> (\<forall>j<i. (ks ! j) v c = Continue) \<Longrightarrow> (ks ! i) v c = Fails e
   \<Longrightarrow> run_checks ks v c = Some e"
proof (induction ks arbitrary: i)
  case Nil
  then show ?case by simp
next
  case (Cons k ks)
  show ?case
  proof (cases i)
    case 0
    with Cons.prems show ?thesis by simp
  next
    case (Suc n)
    from Cons.prems Suc have "k v c = Continue" by auto
    moreover have "\<forall>j<n. (ks ! j) v c = Continue"
    proof (intro allI impI)
      fix j assume "j < n"
      then have "Suc j < i" using Suc by simp
      with Cons.prems(2) have "((k # ks) ! Suc j) v c = Continue" by blast
      then show "(ks ! j) v c = Continue" by simp
    qed
    then have "run_checks ks v c = Some e"
      using Cons.IH[of n] Cons.prems Suc by auto
    ultimately show ?thesis by simp
  qed
qed

lemma numeric_pipeline_refines:
  "failure_of (isNumber v options) = run_checks numeric_checks v (merged options)"
  by (cases v)
     (auto simp: isNumber_def isNumber_checks_def failure_of_def numeric_checks_def
        presence_check_def type_check_def nan_policy_def infinity_policy_def zero_policy_def
        sign_policy_def minimum_check_def maximum_check_def on_number_def Let_def
        split: option.splits)

lemma textual_pipeline_refines:
  "failure_of (isString w soptions) = run_checks textual_checks w (merged_string soptions)"
  by (cases w)
     (auto simp: isString_def isString_checks_def failure_of_def textual_checks_def
        text_presence_check_def text_type_check_def emptiness_check_def whitespace_policy_def
        length_check_def control_policy_def on_string_def Let_def truthy_num_def
        split: option.splits)

text \<open>
  C1. Validation is the ordered pipeline: what \<open>isNumber\<close> and \<open>isString\<close> raise is what
  running the declared checks in their declared order gives; the pipeline stops at the
  first failing check, whose failure is the result whatever the later checks would say;
  and with \<open>allowNaN\<close> (\<open>allowInfinity\<close>) enabled a NaN (infinite) candidate passes at once,
  whatever the zero, sign and range options are.
\<close>

theorem validation_runs_checks_in_order:
  "failure_of (isNumber v options) = run_checks numeric_checks v (merged options)
   \<and> failure_of (isString w soptions) = run_checks textual_checks w (merged_string soptions)
   \<and> (i < length ks \<and> (\<forall>j<i. (ks ! j) v c = Continue) \<and> (ks ! i) v c = Fails e
        \<longrightarrow> run_checks ks v c = Some e)
   \<and> (truthy (read (allowNaN (merged options))) \<longrightarrow> isNumber (Num NaN) options = Inr NaN)
   \<and> (truthy (read (allowInfinity (merged options))) \<and> (x = PosInf \<or> x = NegInf) \<longrightarrow>
        isNumber (Num x) options = Inr x)"
  using numeric_pipeline_refines textual_pipeline_refines run_checks_first_failure[of i ks v c e]
  by (cases x) (auto simp: isNumber_def isNumber_checks_def)

lemmas option_evals = allow_special_def no_number_options_def merged_def spread_def over_def
  read_def truthy_def DEFAULT_OPTIONS_def

theorem validation_runs_checks_in_order_witness:
  "isNumber (Num NaN) (Some allow_special) = Inr NaN
   \<and> isNumber (Num PosInf) (Some allow_special) = Inr PosInf
   \<and> run_checks numeric_checks (Num (Fin 0)) (merged (Some allow_special)) = Some NumberZero
   \<and> failure_of (isNumber (Num (Fin 0)) (Some allow_special)) = Some NumberZero
   \<and> failure_of (isString (Str '' '') None) = run_checks textual_checks (Str '' '') (merged_string None)"
proof -
  have nan: "truthy (read (allowNaN (merged (Some allow_special))))"
    by (simp add: option_evals)
  have inf: "truthy (read (allowInfinity (merged (Some allow_special))))"
    by (simp add: option_evals)
  have before: "\<forall>j<4. (numeric_checks ! j) (Num (Fin 0)) (merged (Some allow_special)) = Continue"
    by (simp add: numeral_eq_Suc All_less_Suc numeric_checks_def presence_check_def
        type_check_def nan_policy_def infinity_policy_def on_number_def)
  have zero: "(numeric_checks ! 4) (Num (Fin 0)) (merged (Some allow_special)) = Fails NumberZero"
    by (simp add: numeral_eq_Suc numeric_checks_def zero_policy_def on_number_def strict_eq_def
        option_evals)
  have len: "4 < length numeric_checks"
    by (simp add: numeric_checks_def)
  show ?thesis
    using validation_runs_checks_in_order[of "Num (Fin 0)" "Some allow_special" "Str '' ''" None
       4 numeric_checks "merged (Some allow_special)" NumberZero PosInf] nan inf before zero len
    by simp
qed

subsection \<open>Merging a configuration over the defaults\<close>

lemma over_cases: "over d ov = (case ov of Absent \<Rightarrow> d | Present v \<Rightarrow> Present v)"
  by (simp add: over_def)

lemmas merge_evals = merged_def spread_def over_cases DEFAULT_OPTIONS_def no_number_options_def
  merged_string_def spread_string_def DEFAULT_STRING_OPTIONS_def

lemma unset_minimum_skips_check:
  assumes "min_value ov = Present None"
  shows "run_checks [minimum_check] v (merged (Some ov)) = None"
    and "isNumber v (Some ov) \<noteq> Inl (BelowMinimum a b)"
proof -
  have r: "read (min_value (merged (Some ov))) = None"
    using assms by (simp add: merge_evals read_def)
  show "run_checks [minimum_check] v (merged (Some ov)) = None"
    using r by (simp add: minimum_check_def on_number_def split: jsval.splits)
  show "isNumber v (Some ov) \<noteq> Inl (BelowMinimum a b)"
    using r by (cases v) (auto simp: isNumber_def isNumber_checks_def Let_def split: if_splits)
qed

lemma unset_allowNegative_rejects:
  assumes "allowNegative ov = Present None" and "x < 0"
  shows "isNumber (Num (Fin x)) (Some ov) = Inl NumberNegative"
proof -
  have "read (allowNegative (merged (Some ov))) = None"
    using assms by (simp add: merge_evals read_def)
  then show ?thesis
    using assms(2) by (simp add: isNumber_def isNumber_checks_def truthy_def strict_eq_def)
qed

lemma default_accepts_negative:
  assumes "x < 0" and "- MAX_SAFE_INTEGER \<le> x"
  shows "isNumber (Num (Fin x)) None = Inr (Fin x)"
  using assms
  by (simp add: isNumber_def isNumber_checks_def truthy_def strict_eq_def merge_evals read_def
      jgt_def MAX_SAFE_INTEGER_def)

lemma default_minimum_applies:
  assumes "x < - MAX_SAFE_INTEGER"
  shows "isNumber (Num (Fin x)) None = Inl (BelowMinimum (Fin x) (Fin (- MAX_SAFE_INTEGER)))"
    and "isNumber (Num (Fin x)) (Some min_unset) = Inr (Fin x)"
  using assms
  by (simp_all add: isNumber_def isNumber_checks_def truthy_def strict_eq_def merge_evals read_def
      jgt_def MAX_SAFE_INTEGER_def min_unset_def)

text \<open>
  C2. The merged configuration takes, key by key, the caller's entry when the caller set
  the key (also to \<open>undefined\<close>) and the default otherwise. An explicit
  \<open>min: undefined\<close> removes the default minimum, so the minimum-bound check never fails;
  an explicit \<open>allowNegative: undefined\<close> makes every negative number rejected, although
  the default allows them.
\<close>

theorem merge_is_flat_override:
  "min_value (merged (Some ov)) = (case min_value ov of Absent \<Rightarrow> min_value DEFAULT_OPTIONS | Present v \<Rightarrow> Present v)
   \<and> max_value (merged (Some ov)) = (case max_value ov of Absent \<Rightarrow> max_value DEFAULT_OPTIONS | Present v \<Rightarrow> Present v)
   \<and> allowNegative (merged (Some ov)) = (case allowNegative ov of Absent \<Rightarrow> allowNegative DEFAULT_OPTIONS | Present v \<Rightarrow> Present v)
   \<and> allowZero (merged (Some ov)) = (case allowZero ov of Absent \<Rightarrow> allowZero DEFAULT_OPTIONS | Present v \<Rightarrow> Present v)
   \<and> allowInfinity (merged (Some ov)) = (case allowInfinity ov of Absent \<Rightarrow> allowInfinity DEFAULT_OPTIONS | Present v \<Rightarrow> Present v)
   \<and> allowNaN (merged (Some ov)) = (case allowNaN ov of Absent \<Rightarrow> allowNaN DEFAULT_OPTIONS | Present v \<Rightarrow> Present v)
   \<and> maxLength (merged_string (Some sv)) = (case maxLength sv of Absent \<Rightarrow> maxLength DEFAULT_STRING_OPTIONS | Present v \<Rightarrow> Present v)
   \<and> allowWhitespaceOnly (merged_string (Some sv)) = (case allowWhitespaceOnly sv of Absent \<Rightarrow> allowWhitespaceOnly DEFAULT_STRING_OPTIONS | Present v \<Rightarrow> Present v)
   \<and> allowSpecialChars (merged_string (Some sv)) = (case allowSpecialChars sv of Absent \<Rightarrow> allowSpecialChars DEFAULT_STRING_OPTIONS | Present v \<Rightarrow> Present v)
   \<and> merged None = DEFAULT_OPTIONS \<and> merged (Some no_number_options) = DEFAULT_OPTIONS
   \<and> merged_string None = DEFAULT_STRING_OPTIONS
   \<and> (min_value ov = Present None \<longrightarrow> run_checks [minimum_check] v (merged (Some ov)) = None
        \<and> isNumber v (Some ov) \<noteq> Inl (BelowMinimum a b))
   \<and> (allowNegative ov = Present None \<and> x < 0 \<longrightarrow> isNumber (Num (Fin x)) (Some ov) = Inl NumberNegative)
   \<and> (x < 0 \<and> - MAX_SAFE_INTEGER \<le> x \<longrightarrow> isNumber (Num (Fin x)) None = Inr (Fin x))
   \<and> (x < - MAX_SAFE_INTEGER \<longrightarrow>
         isNumber (Num (Fin x)) None = Inl (BelowMinimum (Fin x) (Fin (- MAX_SAFE_INTEGER)))
         \<and> isNumber (Num (Fin x)) (Some min_unset) = Inr (Fin x))"
proof -
  have fields: "min_value (merged (Some ov)) = (case min_value ov of Absent \<Rightarrow> min_value DEFAULT_OPTIONS | Present v \<Rightarrow> Present v)"
    "max_value (merged (Some ov)) = (case max_value ov of Absent \<Rightarrow> max_value DEFAULT_OPTIONS | Present v \<Rightarrow> Present v)"
    "allowNegative (merged (Some ov)) = (case allowNegative ov of Absent \<Rightarrow> allowNegative DEFAULT_OPTIONS | Present v \<Rightarrow> Present v)"
    "allowZero (merged (Some ov)) = (case allowZero ov of Absent \<Rightarrow> allowZero DEFAULT_OPTIONS | Present v \<Rightarrow> Present v)"
    "allowInfinity (merged (Some ov)) = (case allowInfinity ov of Absent \<Rightarrow> allowInfinity DEFAULT_OPTIONS | Present v \<Rightarrow> Present v)"
    "allowNaN (merged (Some ov)) = (case allowNaN ov of Absent \<Rightarrow> allowNaN DEFAULT_OPTIONS | Present v \<Rightarrow> Present v)"
    by (simp_all add: merged_def spread_def over_cases)
  have sfields: "maxLength (merged_string (Some sv)) = (case maxLength sv of Absent \<Rightarrow> maxLength DEFAULT_STRING_OPTIONS | Present v \<Rightarrow> Present v)"
    "allowWhitespaceOnly (merged_string (Some sv)) = (case allowWhitespaceOnly sv of Absent \<Rightarrow> allowWhitespaceOnly DEFAULT_STRING_OPTIONS | Present v \<Rightarrow> Present v)"
    "allowSpecialChars (merged_string (Some sv)) = (case allowSpecialChars sv of Absent \<Rightarrow> allowSpecialChars DEFAULT_STRING_OPTIONS | Present v \<Rightarrow> Present v)"
    by (simp_all add: merged_string_def spread_string_def over_cases)
  have empty: "merged None = DEFAULT_OPTIONS" "merged (Some no_number_options) = DEFAULT_OPTIONS"
    "merged_string None = DEFAULT_STRING_OPTIONS"
    by (simp_all add: merge_evals)
  show ?thesis
    using fields sfields empty
      unset_minimum_skips_check(1)[of ov v] unset_minimum_skips_check(2)[of ov v a b]
      unset_allowNegative_rejects[of ov x]
      default_accepts_negative[of x] default_minimum_applies[of x]
    by blast
qed

theorem merge_is_flat_override_witness:
  "isNumber (Num (Fin (-5))) (Some negative_unset) = Inl NumberNegative
   \<and> isNumber (Num (Fin (-5))) None = Inr (Fin (-5))
   \<and> isNumber (Num (Fin (-10000000000000000))) None
       = Inl (BelowMinimum (Fin (-10000000000000000)) (Fin (- MAX_SAFE_INTEGER)))
   \<and> isNumber (Num (Fin (-10000000000000000))) (Some min_unset) = Inr (Fin (-10000000000000000))
   \<and> min_value (merged (Some min_unset)) = Present None
   \<and> max_value (merged (Some min_unset)) = Present (Some (Fin MAX_SAFE_INTEGER))"
proof -
  have a: "allowNegative negative_unset = Present None"
    by (simp add: negative_unset_def no_number_options_def)
  have b: "(-5::rat) < 0 \<and> - MAX_SAFE_INTEGER \<le> -5"
    by (simp add: MAX_SAFE_INTEGER_def)
  have c: "(-10000000000000000::rat) < - MAX_SAFE_INTEGER"
    by (simp add: MAX_SAFE_INTEGER_def)
  have d: "min_value min_unset = Present None \<and> max_value min_unset = Absent"
    by (simp add: min_unset_def no_number_options_def)
  show ?thesis
    using merge_is_flat_override[of negative_unset DEFAULT_STRING_OPTIONS "Num (Fin 0)" NaN NaN "-5"]
      merge_is_flat_override[of min_unset DEFAULT_STRING_OPTIONS "Num (Fin 0)" NaN NaN "-10000000000000000"] a b c d
    by (simp add: DEFAULT_OPTIONS_def)
qed

subsection \<open>Even and odd\<close>

lemma rem2_zero_iff: "strict_eq (jrem (Fin x) (Fin 2)) (Fin 0) \<longleftrightarrow> x / 2 \<in> \<int>"
proof -
  have "x - 2 * of_int (rat_trunc (x / 2)) = 0 \<longleftrightarrow> x / 2 \<in> \<int>"
  proof
    assume "x - 2 * of_int (rat_trunc (x / 2)) = 0"
    then have "x / 2 = of_int (rat_trunc (x / 2))" by simp
    then show "x / 2 \<in> \<int>" by (metis Ints_of_int)
  next
    assume "x / 2 \<in> \<int>"
    then obtain k where k: "x / 2 = of_int k" by (auto elim: Ints_cases)
    then have "rat_trunc (x / 2) = k" by (simp add: rat_trunc_def)
    with k show "x - 2 * of_int (rat_trunc (x / 2)) = 0" by simp
  qed
  then show ?thesis by (simp add: strict_eq_def)
qed

text \<open>
  C9. When numeric validation accepts the input, \<open>isEven\<close> succeeds with the value of
  \<open>num % 2 === 0\<close> and \<open>isOdd\<close> with its negation; for a finite input that value says
  whether the input is an even integer, so a non-integer is odd and not even; with
  \<open>allowNaN\<close> enabled NaN is accepted, \<open>isEven\<close> gives false and \<open>isOdd\<close> gives true.
\<close>

theorem even_odd_by_remainder:
  "(isNumber v options = Inr x \<longrightarrow>
      isEven v options = Success (strict_eq (jrem x (Fin 2)) (Fin 0))
      \<and> isOdd v options = Success (\<not> strict_eq (jrem x (Fin 2)) (Fin 0)))
   \<and> (isNumber v options = Inr (Fin r) \<longrightarrow>
      isEven v options = Success (r / 2 \<in> \<int>) \<and> isOdd v options = Success (r / 2 \<notin> \<int>))
   \<and> (truthy (read (allowNaN (merged options))) \<longrightarrow>
      isNumber (Num NaN) options = Inr NaN
      \<and> isEven (Num NaN) options = Success False \<and> isOdd (Num NaN) options = Success True)"
  using rem2_zero_iff[of r]
  by (auto simp: isEven_def isOdd_def isNumber_def isNumber_checks_def strict_eq_def)

theorem even_odd_by_remainder_witness:
  "isEven (Num (Fin (3/2))) None = Success False \<and> isOdd (Num (Fin (3/2))) None = Success True
   \<and> isEven (Num (Fin 4)) None = Success True \<and> isOdd (Num (Fin 4)) None = Success False
   \<and> isEven (Num NaN) (Some allow_nan) = Success False
   \<and> isOdd (Num NaN) (Some allow_nan) = Success True"
proof -
  have a: "isNumber (Num (Fin (3/2))) None = Inr (Fin (3/2))"
    by (simp add: isNumber_def isNumber_checks_def merged_def spread_def over_def read_def
        truthy_def DEFAULT_OPTIONS_def strict_eq_def jgt_def MAX_SAFE_INTEGER_def)
  have b: "isNumber (Num (Fin 4)) None = Inr (Fin 4)"
    by (simp add: isNumber_def isNumber_checks_def merged_def spread_def over_def read_def
        truthy_def DEFAULT_OPTIONS_def strict_eq_def jgt_def MAX_SAFE_INTEGER_def)
  have c: "truthy (read (allowNaN (merged (Some allow_nan))))"
    by (simp add: allow_nan_def no_number_options_def merged_def spread_def over_def read_def
        truthy_def)
  have d: "(3/2) / (2::rat) \<notin> \<int>"
  proof
    assume "(3/2) / (2::rat) \<in> \<int>"
    then obtain k :: int where "(3/2) / (2::rat) = of_int k" by (auto elim: Ints_cases)
    then have "(3::rat) = of_int (4 * k)" by simp
    then have "(3::int) = 4 * k" by (metis of_int_eq_iff of_int_numeral)
    then show False by presburger
  qed
  have e: "(4::rat) / 2 \<in> \<int>" by simp
  note t1 = even_odd_by_remainder[of "Num (Fin (3/2))" None "Fin (3/2)" "3/2",
      THEN conjunct2, THEN conjunct1, rule_format, OF a]
  note t2 = even_odd_by_remainder[of "Num (Fin 4)" None "Fin 4" 4,
      THEN conjunct2, THEN conjunct1, rule_format, OF b]
  note t3 = even_odd_by_remainder[of "Num NaN" "Some allow_nan" NaN 0,
      THEN conjunct2, THEN conjunct2, rule_format, OF c]
  show ?thesis
    using t1 t2 t3 d e by simp
qed

subsection \<open>A maximum length of zero\<close>

lemma trim_eq_Nil_iff: "trim s = [] \<longleftrightarrow> list_all is_space s"
proof (cases "dropWhile is_space s")
  case Nil
  have "trim s = []" unfolding trim_def Nil by simp
  moreover have "list_all is_space s"
    using Nil by (simp add: dropWhile_eq_Nil_conv list_all_iff)
  ultimately show ?thesis by simp
next
  case (Cons a t)
  then have "\<not> is_space a" by (metis hd_dropWhile list.sel(1) list.discI)
  then have "trim s \<noteq> []" using Cons by (auto simp: trim_def dropWhile_eq_Nil_conv)
  moreover have "\<not> list_all is_space s"
    using Cons by (metis dropWhile_eq_Nil_conv list.discI list_all_iff)
  ultimately show ?thesis by simp
qed

text \<open>
  C10. When the merged \<open>maxLength\<close> is 0 (the caller passed \<open>maxLength: 0\<close>), no string fails
  the maximum-length check: validation gives what it gives with no limit configured. A
  string longer than the default limit of 10000 is then accepted, while the default
  configuration rejects it.
\<close>

theorem maxLength_zero_means_no_limit:
  "(read (maxLength (merged_string (Some ov))) = Some (Fin 0) \<longrightarrow>
      isString v (Some ov) \<noteq> Inl (StringTooLong n m)
      \<and> isString v (Some ov) = isString v (Some (ov \<lparr> maxLength := Present None \<rparr>)))
   \<and> (maxLength ov = Present (Some (Fin 0)) \<longrightarrow>
        read (maxLength (merged_string (Some ov))) = Some (Fin 0))
   \<and> (10000 < length s \<and> \<not> list_all is_space s \<longrightarrow>
        isString (Str s) (Some maxLength_zero) = Inr s
        \<and> isString (Str s) None = Inl (StringTooLong (length s) (Fin 10000)))"
proof (intro conjI impI)
  assume z: "read (maxLength (merged_string (Some ov))) = Some (Fin 0)"
  have m: "merged_string (Some (ov \<lparr> maxLength := Present None \<rparr>))
      = (merged_string (Some ov)) \<lparr> maxLength := Present None \<rparr>"
    by (simp add: merged_string_def spread_string_def over_def)
  show "isString v (Some ov) \<noteq> Inl (StringTooLong n m)"
    using z by (cases v) (auto simp: isString_def isString_checks_def truthy_num_def Let_def split: if_splits)
  show "isString v (Some ov) = isString v (Some (ov \<lparr> maxLength := Present None \<rparr>))"
  proof -
    have r: "read (Present None :: jsnum entry) = None" by (simp add: read_def)
    show ?thesis
      unfolding isString_def m
      by (cases v) (simp_all add: isString_checks_def truthy_num_def Let_def r z)
  qed
next
  assume "maxLength ov = Present (Some (Fin 0))"
  then show "read (maxLength (merged_string (Some ov))) = Some (Fin 0)"
    by (simp add: merged_string_def spread_string_def over_def read_def)
next
  assume a: "10000 < length s \<and> \<not> list_all is_space s"
  then have ne: "s \<noteq> []" "trim s \<noteq> []" by (auto simp: trim_eq_Nil_iff)
  show "isString (Str s) (Some maxLength_zero) = Inr s"
    using ne by (simp add: isString_def isString_checks_def maxLength_zero_def merged_string_def
        spread_string_def over_def read_def truthy_num_def truthy_def DEFAULT_STRING_OPTIONS_def)
  show "isString (Str s) None = Inl (StringTooLong (length s) (Fin 10000))"
    using ne a by (simp add: isString_def isString_checks_def merged_string_def
        spread_string_def over_def read_def truthy_num_def truthy_def DEFAULT_STRING_OPTIONS_def
        jgt_def str_length_def)
qed

theorem maxLength_zero_means_no_limit_witness:
  "isString (Str (replicate 10001 CHR ''a'')) (Some maxLength_zero) = Inr (replicate 10001 CHR ''a'')
   \<and> isString (Str (replicate 10001 CHR ''a'')) None = Inl (StringTooLong 10001 (Fin 10000))
   \<and> isString (Str ''ab'') (Some maxLength_zero)
       = isString (Str ''ab'') (Some (maxLength_zero \<lparr> maxLength := Present None \<rparr>))"
proof -
  have a: "10000 < length (replicate 10001 CHR ''a'') \<and> \<not> list_all is_space (replicate 10001 CHR ''a'')"
    by (simp add: list_all_iff is_space_def code_unit_def)
  have b: "maxLength maxLength_zero = Present (Some (Fin 0))"
    by (simp add: maxLength_zero_def)
  note t = maxLength_zero_means_no_limit[of maxLength_zero "Str ''ab''" 0 NaN "replicate 10001 CHR ''a''"]
  show ?thesis
    using t a b by simp
qed

subsection \<open>Aggregates\<close>

lemma sum_loop_append:
  "sum_loop options tot (xs @ ys) =
     (case sum_loop options tot xs of Inl e \<Rightarrow> Inl e | Inr t \<Rightarrow> sum_loop options t ys)"
  by (induction xs arbitrary: tot) (auto split: sum.splits)

lemma sum_loop_validates:
  "sum_loop options tot xs = Inr t \<Longrightarrow> \<forall>x\<in>set xs. \<exists>n. isNumber x options = Inr n"
  by (induction xs arbitrary: tot) (auto split: sum.splits)

lemma sum_loop_first_failure:
  "\<forall>x\<in>set ys. \<exists>n. isNumber x options = Inr n \<Longrightarrow> isNumber x options = Inl e
   \<Longrightarrow> sum_loop options tot (ys @ x # zs) = Inl e"
  by (induction ys arbitrary: tot) (auto split: sum.splits)

lemma sum_loop_all_valid:
  "\<forall>x\<in>set xs. \<exists>n. isNumber x options = Inr n \<Longrightarrow> \<exists>t. sum_loop options tot xs = Inr t"
  by (induction xs arbitrary: tot) (auto split: sum.splits)

lemma min_loop_validates:
  "min_loop options m xs = Inr t \<Longrightarrow> \<forall>x\<in>set xs. \<exists>n. isNumber x options = Inr n"
  by (induction xs arbitrary: m) (auto split: sum.splits)

lemma min_loop_first_failure:
  "\<forall>x\<in>set ys. \<exists>n. isNumber x options = Inr n \<Longrightarrow> isNumber x options = Inl e
   \<Longrightarrow> min_loop options m (ys @ x # zs) = Inl e"
  by (induction ys arbitrary: m) (auto split: sum.splits)

lemma min_loop_all_valid:
  "\<forall>x\<in>set xs. \<exists>n. isNumber x options = Inr n \<Longrightarrow> \<exists>t. min_loop options m xs = Inr t"
  by (induction xs arbitrary: m) (auto split: sum.splits)

lemma max_loop_validates:
  "max_loop options m xs = Inr t \<Longrightarrow> \<forall>x\<in>set xs. \<exists>n. isNumber x options = Inr n"
  by (induction xs arbitrary: m) (auto split: sum.splits)

lemma max_loop_first_failure:
  "\<forall>x\<in>set ys. \<exists>n. isNumber x options = Inr n \<Longrightarrow> isNumber x options = Inl e
   \<Longrightarrow> max_loop options m (ys @ x # zs) = Inl e"
  by (induction ys arbitrary: m) (auto split: sum.splits)

lemma max_loop_all_valid:
  "\<forall>x\<in>set xs. \<exists>n. isNumber x options = Inr n \<Longrightarrow> \<exists>t. max_loop options m xs = Inr t"
  by (induction xs arbitrary: m) (auto split: sum.splits)

lemma valid_number_iff: "valid_number options x \<longleftrightarrow> (\<exists>n. isNumber x options = Inr n)"
  by (auto simp: valid_number_def split: sum.splits)

lemma average_by_sum:
  "average (Arr xs) options =
     (case sum_of (Arr xs) options of
        Failure e \<Rightarrow> Failure e
      | Success t \<Rightarrow> Success (jdiv t (Fin (of_nat (length xs)))))"
  by (auto simp: average_def sum_of_def split: outcome.splits sum.splits)

lemma isNumber_returns_candidate: "isNumber v options = Inr n \<Longrightarrow> v = Num n"
  by (cases v) (auto simp: isNumber_def isNumber_checks_def Let_def split: if_splits)

lemma sum_loop_fold:
  "list_all (valid_number options) (map Num ns) \<Longrightarrow>
     sum_loop options tot (map Num ns) = Inr (foldl jadd tot ns)"
proof (induction ns arbitrary: tot)
  case Nil
  then show ?case by simp
next
  case (Cons n ns)
  from Cons.prems obtain m where m: "isNumber (Num n) options = Inr m"
    by (auto simp: valid_number_iff)
  then have "m = n" by (auto dest: isNumber_returns_candidate)
  with m Cons show ?case by simp
qed

lemma succeeds_tryCatch: "succeeds (tryCatch r) \<longleftrightarrow> (\<exists>t. r = Inr t)"
  by (cases r) (simp_all add: succeeds_def)

lemma sum_loop_succeeds_iff:
  "(\<exists>t. sum_loop options tot xs = Inr t) \<longleftrightarrow> list_all (valid_number options) xs"
  using sum_loop_validates[of options tot xs] sum_loop_all_valid[of xs options tot]
  by (auto simp: list_all_iff valid_number_iff)

lemma min_loop_succeeds_iff:
  "(\<exists>t. min_loop options m xs = Inr t) \<longleftrightarrow> list_all (valid_number options) xs"
  using min_loop_validates[of options m xs] min_loop_all_valid[of xs options m]
  by (auto simp: list_all_iff valid_number_iff)

lemma max_loop_succeeds_iff:
  "(\<exists>t. max_loop options m xs = Inr t) \<longleftrightarrow> list_all (valid_number options) xs"
  using max_loop_validates[of options m xs] max_loop_all_valid[of xs options m]
  by (auto simp: list_all_iff valid_number_iff)

text \<open>
  C6. \<open>sum\<close>, \<open>average\<close>, \<open>min\<close> and \<open>max\<close> fail with "Input must be an array" on a value that is
  not an array and with "Array cannot be empty" on the empty array. On a non-empty array
  each succeeds exactly when every element passes \<open>isNumber\<close>, and the failure of the first
  element that does not pass is the failure reported; the sum of validated numbers is the
  left fold of \<open>+\<close> from 0. \<open>average\<close> fails as \<open>sum\<close> fails and otherwise returns the sum
  divided by the length.
\<close>

theorem aggregates_validate_every_element:
  "(\<not> isArray v \<longrightarrow>
      sum_of v options = Failure InputMustBeArray \<and> average v options = Failure InputMustBeArray
      \<and> min_of v options = Failure InputMustBeArray \<and> max_of v options = Failure InputMustBeArray)
   \<and> message InputMustBeArray = [Lit ''Input must be an array'']
   \<and> sum_of (Arr []) options = Failure ArrayEmpty \<and> average (Arr []) options = Failure ArrayEmpty
   \<and> min_of (Arr []) options = Failure ArrayEmpty \<and> max_of (Arr []) options = Failure ArrayEmpty
   \<and> message ArrayEmpty = [Lit ''Array cannot be empty'']
   \<and> (xs \<noteq> [] \<longrightarrow>
      succeeds (sum_of (Arr xs) options) = list_all (valid_number options) xs
      \<and> succeeds (average (Arr xs) options) = list_all (valid_number options) xs
      \<and> succeeds (min_of (Arr xs) options) = list_all (valid_number options) xs
      \<and> succeeds (max_of (Arr xs) options) = list_all (valid_number options) xs)
   \<and> (list_all (valid_number options) ys \<and> isNumber x options = Inl e \<longrightarrow>
      sum_of (Arr (ys @ x # zs)) options = Failure e
      \<and> average (Arr (ys @ x # zs)) options = Failure e
      \<and> min_of (Arr (ys @ x # zs)) options = Failure e
      \<and> max_of (Arr (ys @ x # zs)) options = Failure e)
   \<and> (ns \<noteq> [] \<and> list_all (valid_number options) (map Num ns) \<longrightarrow>
      sum_of (Arr (map Num ns)) options = Success (foldl jadd (Fin 0) ns))
   \<and> average (Arr xs) options =
       (case sum_of (Arr xs) options of
          Failure e \<Rightarrow> Failure e
        | Success t \<Rightarrow> Success (jdiv t (Fin (of_nat (length xs)))))
   \<and> succeeds (average v options) = succeeds (sum_of v options)"
proof (intro conjI impI)
  assume "\<not> isArray v"
  then show "sum_of v options = Failure InputMustBeArray" "average v options = Failure InputMustBeArray"
    "min_of v options = Failure InputMustBeArray" "max_of v options = Failure InputMustBeArray"
    by (cases v; simp add: isArray_def sum_of_def average_def min_of_def max_of_def)+
next
  show "sum_of (Arr []) options = Failure ArrayEmpty" "average (Arr []) options = Failure ArrayEmpty"
    "min_of (Arr []) options = Failure ArrayEmpty" "max_of (Arr []) options = Failure ArrayEmpty"
    by (simp_all add: sum_of_def average_def min_of_def max_of_def)
next
  show "message InputMustBeArray = [Lit ''Input must be an array'']"
    "message ArrayEmpty = [Lit ''Array cannot be empty'']"
    by simp_all
next
  show avg: "average (Arr xs) options =
       (case sum_of (Arr xs) options of
          Failure e \<Rightarrow> Failure e
        | Success t \<Rightarrow> Success (jdiv t (Fin (of_nat (length xs)))))"
    by (rule average_by_sum)
  show "succeeds (average v options) = succeeds (sum_of v options)"
    by (cases v) (auto simp: average_def sum_of_def succeeds_def split: sum.splits outcome.splits)
next
  assume ne: "xs \<noteq> []"
  show s: "succeeds (sum_of (Arr xs) options) = list_all (valid_number options) xs"
    using ne by (simp add: sum_of_def succeeds_tryCatch sum_loop_succeeds_iff)
  show "succeeds (average (Arr xs) options) = list_all (valid_number options) xs"
    using s by (simp add: average_by_sum succeeds_def split: outcome.splits)
  show "succeeds (min_of (Arr xs) options) = list_all (valid_number options) xs"
    using ne by (simp add: min_of_def succeeds_tryCatch min_loop_succeeds_iff)
  show "succeeds (max_of (Arr xs) options) = list_all (valid_number options) xs"
    using ne by (simp add: max_of_def succeeds_tryCatch max_loop_succeeds_iff)
next
  assume a: "list_all (valid_number options) ys \<and> isNumber x options = Inl e"
  then have v: "\<forall>y\<in>set ys. \<exists>n. isNumber y options = Inr n" and f: "isNumber x options = Inl e"
    by (simp_all add: list_all_iff valid_number_iff)
  show s: "sum_of (Arr (ys @ x # zs)) options = Failure e"
    using sum_loop_first_failure[OF v f] by (simp add: sum_of_def)
  show "average (Arr (ys @ x # zs)) options = Failure e"
    using s by (simp add: average_by_sum)
  show "min_of (Arr (ys @ x # zs)) options = Failure e"
    using min_loop_first_failure[OF v f] by (simp add: min_of_def)
  show "max_of (Arr (ys @ x # zs)) options = Failure e"
    using max_loop_first_failure[OF v f] by (simp add: max_of_def)
next
  assume "ns \<noteq> [] \<and> list_all (valid_number options) (map Num ns)"
  then show "sum_of (Arr (map Num ns)) options = Success (foldl jadd (Fin 0) ns)"
    using sum_loop_fold[of options ns "Fin 0"] by (simp add: sum_of_def)
qed

lemma default_accepts_small:
  "\<bar>x\<bar> \<le> 1000 \<Longrightarrow> isNumber (Num (Fin x)) None = Inr (Fin x)"
  by (auto simp: isNumber_def isNumber_checks_def merged_def spread_def over_def read_def
      truthy_def DEFAULT_OPTIONS_def strict_eq_def jgt_def MAX_SAFE_INTEGER_def Let_def)

theorem aggregates_validate_every_element_witness:
  "sum_of (Str ''x'') None = Failure InputMustBeArray
   \<and> sum_of (Arr []) None = Failure ArrayEmpty
   \<and> succeeds (sum_of (Arr [Num (Fin 1), Num (Fin 2)]) None)
   \<and> succeeds (min_of (Arr [Num (Fin 1), Num (Fin 2)]) None)
   \<and> succeeds (max_of (Arr [Num (Fin 1), Num (Fin 2)]) None)
   \<and> succeeds (average (Arr [Num (Fin 1), Num (Fin 2)]) None)
   \<and> sum_of (Arr [Num (Fin 1), Num (Fin 2)]) None = Success (jadd (jadd (Fin 0) (Fin 1)) (Fin 2))
   \<and> sum_of (Arr [Num (Fin 1), Str ''a'', Null]) None = Failure TypeMustBeNumber
   \<and> average (Arr [Num (Fin 1), Str ''a'', Null]) None = Failure TypeMustBeNumber
   \<and> min_of (Arr [Num (Fin 1), Str ''a'', Null]) None = Failure TypeMustBeNumber
   \<and> max_of (Arr [Num (Fin 1), Str ''a'', Null]) None = Failure TypeMustBeNumber"
proof -
  have a: "\<not> isArray (Str ''x'')" by (simp add: isArray_def)
  have v: "list_all (valid_number None) [Num (Fin 1), Num (Fin 2)]"
    by (simp add: valid_number_def default_accepts_small)
  have v1: "list_all (valid_number None) [Num (Fin 1)]"
    by (simp add: valid_number_def default_accepts_small)
  have f: "isNumber (Str ''a'') None = Inl TypeMustBeNumber"
    by (simp add: isNumber_def)
  note t = aggregates_validate_every_element[of "Str ''x''" None "[Num (Fin 1), Num (Fin 2)]"
      "[Num (Fin 1)]" "Str ''a''" TypeMustBeNumber "[Null]" "[Fin 1, Fin 2]"]
  show ?thesis
    using t a v v1 f by (simp add: succeeds_def)
qed

subsection \<open>Factorial and Fibonacci\<close>

lemma sign_policy_options:
  "merged (with_sign_policy None z) = DEFAULT_OPTIONS \<lparr> allowNegative := Present (Some False),
      allowZero := Present (Some z) \<rparr>"
  by (simp add: with_sign_policy_def spread_undefined_def no_number_options_def merged_def
      spread_def over_def DEFAULT_OPTIONS_def)

lemma sign_policy_validation:
  "isNumber (Num (Fin x)) (with_sign_policy None z) =
     (if x = 0 \<and> \<not> z then Inl NumberZero
      else if x < 0 then Inl NumberNegative
      else if MAX_SAFE_INTEGER < x then Inl (AboveMaximum (Fin x) (Fin MAX_SAFE_INTEGER))
      else Inr (Fin x))"
  by (auto simp: isNumber_def sign_policy_options isNumber_checks_def DEFAULT_OPTIONS_def read_def
      truthy_def strict_eq_def jgt_def MAX_SAFE_INTEGER_def Let_def)

lemma factorial_cases:
  "factorial (Num (Fin x)) None =
     (if x < 0 then Failure NumberNegative
      else if MAX_SAFE_INTEGER < x then Failure (AboveMaximum (Fin x) (Fin MAX_SAFE_INTEGER))
      else if of_int \<lfloor>x\<rfloor> \<noteq> x then Failure FactorialOnlyIntegers
      else if 170 < x then Failure FactorialTooLarge
      else if x = 0 \<or> x = 1 then Success (Fin 1)
      else Success (factorial_loop x 2 (Fin 1)))"
  by (simp add: factorial_def sign_policy_validation jgt_def strict_eq_def)

lemma fibonacci_cases:
  "fibonacci (Num (Fin x)) None =
     (if x < 0 then Failure NumberNegative
      else if MAX_SAFE_INTEGER < x then Failure (AboveMaximum (Fin x) (Fin MAX_SAFE_INTEGER))
      else if of_int \<lfloor>x\<rfloor> \<noteq> x then Failure FibonacciOnlyIntegers
      else if 78 < x then Failure FibonacciTooLarge
      else if x \<le> 1 then Success (Fin x)
      else Success (fibonacci_loop x 2 (Fin 0) (Fin 1)))"
  by (auto simp: fibonacci_def sign_policy_validation jgt_def jle_def strict_eq_def)

text \<open>
  The inputs that are not finite numbers: the presence and type checks, the NaN check
  and the infinity check of the validation come first in each of the three operations.
\<close>

lemma sign_policy_rejects:
  "isNumber Undefined (with_sign_policy None z) = Inl NumberRequired"
  "isNumber Null (with_sign_policy None z) = Inl NumberRequired"
  "v \<noteq> Undefined \<Longrightarrow> v \<noteq> Null \<Longrightarrow> \<not> typeof_number v \<Longrightarrow>
     isNumber v (with_sign_policy None z) = Inl TypeMustBeNumber"
  "isNumber (Num NaN) (with_sign_policy None z) = Inl NumberNaN"
  "isNumber (Num PosInf) (with_sign_policy None z) = Inl NumberInfinite"
  "isNumber (Num NegInf) (with_sign_policy None z) = Inl NumberInfinite"
  by (auto simp: isNumber_def sign_policy_options isNumber_checks_def DEFAULT_OPTIONS_def read_def
      truthy_def typeof_number_def Let_def split: jsval.splits)

lemma factorial_rejects:
  "factorial Undefined None = Failure NumberRequired"
  "factorial Null None = Failure NumberRequired"
  "v \<noteq> Undefined \<Longrightarrow> v \<noteq> Null \<Longrightarrow> \<not> typeof_number v \<Longrightarrow>
     factorial v None = Failure TypeMustBeNumber"
  "factorial (Num NaN) None = Failure NumberNaN"
  "factorial (Num PosInf) None = Failure NumberInfinite"
  "factorial (Num NegInf) None = Failure NumberInfinite"
  by (simp_all add: factorial_def sign_policy_rejects)

lemma fibonacci_rejects:
  "fibonacci Undefined None = Failure NumberRequired"
  "fibonacci Null None = Failure NumberRequired"
  "v \<noteq> Undefined \<Longrightarrow> v \<noteq> Null \<Longrightarrow> \<not> typeof_number v \<Longrightarrow>
     fibonacci v None = Failure TypeMustBeNumber"
  "fibonacci (Num NaN) None = Failure NumberNaN"
  "fibonacci (Num PosInf) None = Failure NumberInfinite"
  "fibonacci (Num NegInf) None = Failure NumberInfinite"
  by (simp_all add: fibonacci_def sign_policy_rejects)

lemma factorial_rejects_invalid:
  assumes "negative_or_non_integer v"
  shows "\<exists>e. factorial v None = Failure e \<and> \<not> cap_failure e"
proof (cases "typeof_number v")
  case False
  then show ?thesis
    using factorial_rejects(1,2) factorial_rejects(3)[of v]
    by (cases "v = Undefined \<or> v = Null") (auto simp: cap_failure_def)
next
  case True
  then obtain y where v: "v = Num y" by (cases v) (auto simp: typeof_number_def)
  show ?thesis
  proof (cases y)
    case (Fin x)
    with assms v have "x < 0 \<or> of_int \<lfloor>x\<rfloor> \<noteq> x" by (auto simp: negative_or_non_integer_def)
    then show ?thesis unfolding v Fin by (auto simp: factorial_cases cap_failure_def)
  qed (simp_all add: v factorial_rejects cap_failure_def)
qed

lemma fibonacci_rejects_invalid:
  assumes "negative_or_non_integer v"
  shows "\<exists>e. fibonacci v None = Failure e \<and> \<not> cap_failure e"
proof (cases "typeof_number v")
  case False
  then show ?thesis
    using fibonacci_rejects(1,2) fibonacci_rejects(3)[of v]
    by (cases "v = Undefined \<or> v = Null") (auto simp: cap_failure_def)
next
  case True
  then obtain y where v: "v = Num y" by (cases v) (auto simp: typeof_number_def)
  show ?thesis
  proof (cases y)
    case (Fin x)
    with assms v have "x < 0 \<or> of_int \<lfloor>x\<rfloor> \<noteq> x" by (auto simp: negative_or_non_integer_def)
    then show ?thesis unfolding v Fin by (auto simp: fibonacci_cases cap_failure_def)
  qed (simp_all add: v fibonacci_rejects cap_failure_def)
qed

text \<open>
  C4, as the code has it. Without options, \<open>factorial\<close> succeeds on the integers 0..170 and
  fails with the magnitude-cap failure on the integers from 171 up to \<open>MAX_SAFE_INTEGER\<close>; an
  integer above \<open>MAX_SAFE_INTEGER\<close> never reaches the cap, the default maximum bound of the
  validation rejects it first. \<open>fibonacci\<close> succeeds on 0..78 and fails on every integer
  above 78, with its cap failure up to \<open>MAX_SAFE_INTEGER\<close>. Every input that is negative or
  not an integer, whatever value it is, makes both operations fail, and never with a cap
  failure: a finite negative number fails with "Number cannot be negative", a
  non-negative binary64 value that is not an integer with the operation's own
  only-integers failure, NaN with "Number cannot be NaN", the two infinities with "Number
  cannot be Infinity or -Infinity", \<open>undefined\<close> and \<open>null\<close> with "Number is required" and
  every other value that is not a number with "Type must be a number". The two cap
  failures differ from each other, and the failure for a negative number differs from
  the only-integers failures.
\<close>

theorem factorial_fibonacci_domain:
  "(0 \<le> n \<and> n \<le> 170 \<longrightarrow> succeeds (factorial (Num (Fin (of_int n))) None))
   \<and> (170 < n \<and> of_int n \<le> MAX_SAFE_INTEGER \<longrightarrow>
        factorial (Num (Fin (of_int n))) None = Failure FactorialTooLarge)
   \<and> (MAX_SAFE_INTEGER < of_int n \<longrightarrow>
        factorial (Num (Fin (of_int n))) None
          = Failure (AboveMaximum (Fin (of_int n)) (Fin MAX_SAFE_INTEGER)))
   \<and> message FactorialTooLarge = [Lit ''Factorial result would be too large (max: 170)'']
   \<and> FactorialTooLarge \<noteq> NumberNegative \<and> FactorialTooLarge \<noteq> FactorialOnlyIntegers
   \<and> (0 \<le> n \<and> n \<le> 78 \<longrightarrow> succeeds (fibonacci (Num (Fin (of_int n))) None))
   \<and> (78 < n \<longrightarrow> \<not> succeeds (fibonacci (Num (Fin (of_int n))) None))
   \<and> (78 < n \<and> of_int n \<le> MAX_SAFE_INTEGER \<longrightarrow>
        fibonacci (Num (Fin (of_int n))) None = Failure FibonacciTooLarge)
   \<and> (x < 0 \<longrightarrow> factorial (Num (Fin x)) None = Failure NumberNegative
        \<and> fibonacci (Num (Fin x)) None = Failure NumberNegative)
   \<and> (is_double x \<and> 0 \<le> x \<and> of_int \<lfloor>x\<rfloor> \<noteq> x \<longrightarrow>
        factorial (Num (Fin x)) None = Failure FactorialOnlyIntegers
        \<and> fibonacci (Num (Fin x)) None = Failure FibonacciOnlyIntegers)
   \<and> FactorialOnlyIntegers \<noteq> NumberNegative \<and> FibonacciOnlyIntegers \<noteq> NumberNegative
   \<and> FactorialOnlyIntegers \<noteq> FibonacciOnlyIntegers
   \<and> (negative_or_non_integer v \<longrightarrow>
        (\<exists>e. factorial v None = Failure e \<and> \<not> cap_failure e)
        \<and> (\<exists>e. fibonacci v None = Failure e \<and> \<not> cap_failure e))
   \<and> factorial (Num NaN) None = Failure NumberNaN
   \<and> fibonacci (Num NaN) None = Failure NumberNaN
   \<and> factorial (Num PosInf) None = Failure NumberInfinite
   \<and> fibonacci (Num PosInf) None = Failure NumberInfinite
   \<and> factorial (Num NegInf) None = Failure NumberInfinite
   \<and> fibonacci (Num NegInf) None = Failure NumberInfinite
   \<and> (v = Undefined \<or> v = Null \<longrightarrow> factorial v None = Failure NumberRequired
        \<and> fibonacci v None = Failure NumberRequired)
   \<and> (v \<noteq> Undefined \<and> v \<noteq> Null \<and> \<not> typeof_number v \<longrightarrow>
        factorial v None = Failure TypeMustBeNumber
        \<and> fibonacci v None = Failure TypeMustBeNumber)
   \<and> cap_failure FactorialTooLarge \<and> cap_failure FibonacciTooLarge
   \<and> FactorialTooLarge \<noteq> FibonacciTooLarge
   \<and> \<not> cap_failure NumberNegative \<and> \<not> cap_failure FactorialOnlyIntegers
   \<and> \<not> cap_failure FibonacciOnlyIntegers \<and> \<not> cap_failure NumberNaN
   \<and> \<not> cap_failure NumberInfinite \<and> \<not> cap_failure NumberRequired
   \<and> \<not> cap_failure TypeMustBeNumber
   \<and> message FibonacciTooLarge = [Lit ''Fibonacci result would be too large (max: 78)'']"
proof -
  have small: "is_double x \<and> 0 \<le> x \<and> of_int \<lfloor>x\<rfloor> \<noteq> x \<longrightarrow> \<not> MAX_SAFE_INTEGER < x"
    using double_fraction_small[of x] by (auto simp: MAX_SAFE_INTEGER_def)
  have n170: "n \<le> 170 \<longrightarrow> \<not> MAX_SAFE_INTEGER < of_int n \<and> \<not> (170::rat) < of_int n"
  proof
    assume "n \<le> 170"
    then have "(of_int n :: rat) \<le> of_int 170" by (simp only: of_int_le_iff)
    then show "\<not> MAX_SAFE_INTEGER < of_int n \<and> \<not> (170::rat) < of_int n"
      by (simp add: MAX_SAFE_INTEGER_def)
  qed
  have n78: "n \<le> 78 \<longrightarrow> \<not> MAX_SAFE_INTEGER < of_int n \<and> \<not> (78::rat) < of_int n"
  proof
    assume "n \<le> 78"
    then have "(of_int n :: rat) \<le> of_int 78" by (simp only: of_int_le_iff)
    then show "\<not> MAX_SAFE_INTEGER < of_int n \<and> \<not> (78::rat) < of_int n"
      by (simp add: MAX_SAFE_INTEGER_def)
  qed
  have g170: "170 < n \<longrightarrow> (170::rat) < of_int n \<and> \<not> (of_int n :: rat) < 0"
  proof
    assume "170 < n"
    then have "(of_int 170 :: rat) < of_int n" by (simp only: of_int_less_iff)
    then show "(170::rat) < of_int n \<and> \<not> (of_int n :: rat) < 0" by simp
  qed
  have g78: "78 < n \<longrightarrow> (78::rat) < of_int n \<and> \<not> (of_int n :: rat) < 0"
  proof
    assume "78 < n"
    then have "(of_int 78 :: rat) < of_int n" by (simp only: of_int_less_iff)
    then show "(78::rat) < of_int n \<and> \<not> (of_int n :: rat) < 0" by simp
  qed
  have pos: "MAX_SAFE_INTEGER < of_int n \<longrightarrow> \<not> (of_int n :: rat) < 0"
    by (simp add: MAX_SAFE_INTEGER_def)
  have finite: "(0 \<le> n \<and> n \<le> 170 \<longrightarrow> succeeds (factorial (Num (Fin (of_int n))) None))
   \<and> (170 < n \<and> of_int n \<le> MAX_SAFE_INTEGER \<longrightarrow>
        factorial (Num (Fin (of_int n))) None = Failure FactorialTooLarge)
   \<and> (MAX_SAFE_INTEGER < of_int n \<longrightarrow>
        factorial (Num (Fin (of_int n))) None
          = Failure (AboveMaximum (Fin (of_int n)) (Fin MAX_SAFE_INTEGER)))
   \<and> (0 \<le> n \<and> n \<le> 78 \<longrightarrow> succeeds (fibonacci (Num (Fin (of_int n))) None))
   \<and> (78 < n \<longrightarrow> \<not> succeeds (fibonacci (Num (Fin (of_int n))) None))
   \<and> (78 < n \<and> of_int n \<le> MAX_SAFE_INTEGER \<longrightarrow>
        fibonacci (Num (Fin (of_int n))) None = Failure FibonacciTooLarge)
   \<and> (x < 0 \<longrightarrow> factorial (Num (Fin x)) None = Failure NumberNegative
        \<and> fibonacci (Num (Fin x)) None = Failure NumberNegative)
   \<and> (is_double x \<and> 0 \<le> x \<and> of_int \<lfloor>x\<rfloor> \<noteq> x \<longrightarrow>
        factorial (Num (Fin x)) None = Failure FactorialOnlyIntegers
        \<and> fibonacci (Num (Fin x)) None = Failure FibonacciOnlyIntegers)"
    using small n170 n78 g170 g78 pos
    by (auto simp: factorial_cases fibonacci_cases succeeds_def)
  have invalid: "negative_or_non_integer v \<longrightarrow>
        (\<exists>e. factorial v None = Failure e \<and> \<not> cap_failure e)
        \<and> (\<exists>e. fibonacci v None = Failure e \<and> \<not> cap_failure e)"
    using factorial_rejects_invalid[of v] fibonacci_rejects_invalid[of v] by blast
  have other: "(v = Undefined \<or> v = Null \<longrightarrow> factorial v None = Failure NumberRequired
        \<and> fibonacci v None = Failure NumberRequired)
   \<and> (v \<noteq> Undefined \<and> v \<noteq> Null \<and> \<not> typeof_number v \<longrightarrow>
        factorial v None = Failure TypeMustBeNumber
        \<and> fibonacci v None = Failure TypeMustBeNumber)"
    using factorial_rejects(1,2) fibonacci_rejects(1,2) factorial_rejects(3)[of v]
      fibonacci_rejects(3)[of v] by auto
  show ?thesis
    using finite invalid other
    by (simp add: factorial_rejects fibonacci_rejects cap_failure_def)
qed

lemma fl_numeral:
  "numeral k < (2::int) ^ 53 \<Longrightarrow> fl (numeral k) = Fin (numeral k)"
  using fl_of_double[OF safe_integer_is_double[of "numeral k"]] by simp

lemma fl_one: "fl 1 = Fin 1"
  using fl_of_double[OF safe_integer_is_double[of 1]] by simp

lemma fact5: "factorial (Num (Fin 5)) None = Success (Fin 120)"
  by (simp add: factorial_cases MAX_SAFE_INTEGER_def factorial_loop.simps fl_numeral)

lemma fib10: "fibonacci (Num (Fin 10)) None = Success (Fin 55)"
  by (simp add: fibonacci_cases MAX_SAFE_INTEGER_def fibonacci_loop.simps fl_numeral fl_one)

lemma dbl1: "is_double (11 / 2)"
  by code_simp

lemma dbl2: "is_double 9007199254740992"
  by code_simp

text \<open>
  The claim C4 as stated fails at the integer \<open>2^53\<close>, a binary64 value above 170: the
  failure is the maximum-bound failure of the validation, not the magnitude cap.
\<close>

theorem factorial_cap_counterexample:
  "is_double 9007199254740992 \<and> isInteger (Fin 9007199254740992)
   \<and> jgt (Fin 9007199254740992) (Fin 170)
   \<and> factorial (Num (Fin 9007199254740992)) None
       = Failure (AboveMaximum (Fin 9007199254740992) (Fin 9007199254740991))
   \<and> factorial (Num (Fin 9007199254740992)) None \<noteq> Failure FactorialTooLarge"
  using dbl2 by (simp add: factorial_cases MAX_SAFE_INTEGER_def jgt_def)

theorem factorial_fibonacci_domain_witness:
  "succeeds (factorial (Num (Fin 170)) None)
   \<and> factorial (Num (Fin 171)) None = Failure FactorialTooLarge
   \<and> succeeds (fibonacci (Num (Fin 78)) None)
   \<and> fibonacci (Num (Fin 79)) None = Failure FibonacciTooLarge
   \<and> factorial (Num (Fin (-5))) None = Failure NumberNegative
   \<and> fibonacci (Num (Fin (-5))) None = Failure NumberNegative
   \<and> factorial (Num (Fin (11 / 2))) None = Failure FactorialOnlyIntegers
   \<and> fibonacci (Num (Fin (11 / 2))) None = Failure FibonacciOnlyIntegers
   \<and> factorial (Num (Fin 5)) None = Success (Fin 120)
   \<and> fibonacci (Num (Fin 10)) None = Success (Fin 55)
   \<and> negative_or_non_integer (Num NegInf)
   \<and> (\<exists>e. factorial (Num NegInf) None = Failure e \<and> \<not> cap_failure e)
   \<and> (\<exists>e. fibonacci (Num NegInf) None = Failure e \<and> \<not> cap_failure e)
   \<and> factorial (Num NegInf) None = Failure NumberInfinite
   \<and> factorial Null None = Failure NumberRequired
   \<and> fibonacci (Str ''5'') None = Failure TypeMustBeNumber"
proof -
  have "\<lfloor>11 / 2 :: rat\<rfloor> = 5" by (rule floor_unique) simp_all
  then have h: "is_double (11 / 2) \<and> (0::rat) \<le> 11 / 2 \<and> of_int \<lfloor>11 / 2 :: rat\<rfloor> \<noteq> (11 / 2 :: rat)"
    using dbl1 by simp
  have m: "(of_int 171 :: rat) \<le> MAX_SAFE_INTEGER" "(of_int 79 :: rat) \<le> MAX_SAFE_INTEGER"
    by (simp_all add: MAX_SAFE_INTEGER_def)
  have v: "negative_or_non_integer (Num NegInf)" "\<not> typeof_number (Str ''5'')"
    by (simp_all add: negative_or_non_integer_def typeof_number_def)
  note t1 = factorial_fibonacci_domain[of 170 "-5" "Num NegInf"]
  note t2 = factorial_fibonacci_domain[of 171 "11 / 2" Null]
  note t3 = factorial_fibonacci_domain[of 78 "-5" "Str ''5''"]
  note t4 = factorial_fibonacci_domain[of 79 "-5" Null]
  show ?thesis
    using t1 t2 t3 t4 h m v fact5 fib10 by simp
qed

subsection \<open>Primality\<close>

declare isqrt.simps [simp del]

lemma isqrt_bounds: "isqrt n * isqrt n \<le> n \<and> n < (isqrt n + 1) * (isqrt n + 1)"
proof (induction n rule: isqrt.induct)
  case (1 n)
  show ?case
  proof (cases "n < 4")
    case True
    then have "n = 0 \<or> n = 1 \<or> n = 2 \<or> n = 3" by arith
    then show ?thesis by (auto simp: isqrt.simps[of n])
  next
    case False
    define s where "s = isqrt (n div 4)"
    from 1[OF False] have ih: "s * s \<le> n div 4" "n div 4 < (s + 1) * (s + 1)"
      by (simp_all add: s_def)
    define r where "r = 2 * s"
    have lo: "r * r \<le> n"
    proof -
      have "r * r = 4 * (s * s)" by (simp add: r_def)
      also have "\<dots> \<le> 4 * (n div 4)" using ih(1) by simp
      also have "\<dots> \<le> n" by simp
      finally show ?thesis .
    qed
    have hi: "n < (r + 2) * (r + 2)"
    proof -
      have "n < 4 * (n div 4 + 1)" by arith
      also have "\<dots> \<le> 4 * ((s + 1) * (s + 1))" using ih(2) by simp
      also have "\<dots> = (r + 2) * (r + 2)" by (simp add: r_def algebra_simps)
      finally show ?thesis .
    qed
    have eq: "isqrt n = (if (r + 1) * (r + 1) \<le> n then r + 1 else r)"
      using False by (simp add: isqrt.simps[of n] r_def s_def Let_def)
    show ?thesis
    proof (cases "(r + 1) * (r + 1) \<le> n")
      case True
      then show ?thesis using hi by (simp add: eq)
    next
      case False
      then show ?thesis using lo by (simp add: eq)
    qed
  qed
qed

lemma isqrt_greatest: "k * k \<le> n \<Longrightarrow> k \<le> isqrt n"
proof (rule ccontr)
  assume k: "k * k \<le> n" and nk: "\<not> k \<le> isqrt n"
  from nk have h: "isqrt n + 1 \<le> k" by arith
  have "(isqrt n + 1) * (isqrt n + 1) \<le> k * k" by (rule mult_le_mono[OF h h])
  with isqrt_bounds[of n] k show False by simp
qed

text \<open>The root of a natural number below \<open>2^53\<close>, through the scaled integer root.\<close>

lemma sqrt64_of_nat:
  assumes "0 < n" and "n < 2 ^ 53"
  obtains D m where "0 < D" and "sqrt64 (of_nat n) = of_nat m / of_nat D"
    and "isqrt (n * (D * D)) \<le> m" and "m \<le> isqrt (n * (D * D)) + 1"
proof -
  define x :: rat where "x = of_nat n"
  have x0: "x \<noteq> 0" "0 < x" using assms(1) by (simp_all add: x_def)
  have ax: "\<bar>x\<bar> = of_nat n" by (simp add: x_def)
  have "\<bar>x\<bar> < 2 powi 53"
  proof -
    have "(of_nat n :: rat) < of_nat (2 ^ 53)" using assms(2) by (simp only: of_nat_less_iff)
    then show ?thesis by (simp add: ax)
  qed
  then have e_hi: "ilog2 x < 53" using x0(1) by (rule ilog2_less[rotated])
  have "(1::rat) \<le> \<bar>x\<bar>" unfolding ax using assms(1) by simp
  then have "2 powi 0 \<le> \<bar>x\<bar>" by simp
  then have e_lo: "0 \<le> ilog2 x" using x0(1) by (rule ilog2_ge[rotated])
  define d where "d = nat (52 - ilog2 x div 2)"
  define D :: nat where "D = 2 ^ d"
  have h: "ilog2 x div 2 - 52 = - int d"
    using e_hi e_lo by (simp add: d_def)
  have u: "(2::rat) powi (ilog2 x div 2 - 52) = 1 / of_nat D"
    unfolding h by (simp add: power_int_minus D_def inverse_eq_divide)
  have D0: "0 < D" by (simp add: D_def)
  have t: "x / (1 / of_nat D * (1 / of_nat D)) = of_nat (n * (D * D))"
    by (simp add: x_def)
  define f where "f = isqrt (n * (D * D))"
  define hf :: rat where "hf = of_nat (f * f + f) + 1 / 4"
  define m where "m = (if (of_nat (n * (D * D)) :: rat) < hf then f
      else if hf < of_nat (n * (D * D)) then f + 1 else if even f then f else f + 1)"
  have nx: "\<not> x \<le> 0" using x0(2) by simp
  have fl: "nat \<lfloor>(of_nat (n * (D * D)) :: rat)\<rfloor> = n * (D * D)"
    by (simp only: floor_of_nat nat_int)
  have "sqrt64 x = of_nat m * (1 / of_nat D)"
    unfolding m_def hf_def f_def sqrt64_def Let_def u t fl using nx by simp
  then have "sqrt64 (of_nat n) = of_nat m / of_nat D" by (simp add: x_def)
  moreover have "f \<le> m" "m \<le> f + 1" by (auto simp: m_def)
  ultimately show ?thesis using D0 that unfolding f_def by blast
qed

lemma sqrt64_lower:
  assumes "0 < n" and "n < 2 ^ 53" and "i * i \<le> n"
  shows "of_nat i \<le> sqrt64 (of_nat n)"
proof -
  from sqrt64_of_nat[OF assms(1,2)] obtain D m where D: "0 < D"
    and s: "sqrt64 (of_nat n) = of_nat m / of_nat D" and m: "isqrt (n * (D * D)) \<le> m"
    by blast
  have "(i * D) * (i * D) = (i * i) * (D * D)" by (simp add: algebra_simps)
  also have "\<dots> \<le> n * (D * D)" using assms(3) by (rule mult_le_mono1)
  finally have "i * D \<le> isqrt (n * (D * D))" by (rule isqrt_greatest)
  with m have "i * D \<le> m" by simp
  then have "(of_nat (i * D) :: rat) \<le> of_nat m" by (simp only: of_nat_le_iff)
  then have "(of_nat i :: rat) * of_nat D \<le> of_nat m" by simp
  then show ?thesis using D by (simp add: s pos_le_divide_eq)
qed

lemma sqrt64_upper:
  assumes "3 \<le> n" and "n < 2 ^ 53" and "of_nat i \<le> sqrt64 (of_nat n)"
  shows "i < n"
proof (rule ccontr)
  assume "\<not> i < n"
  then have ni: "n \<le> i" by simp
  from assms(1) have n0: "0 < n" by simp
  from sqrt64_of_nat[OF n0 assms(2)] obtain D m where D: "0 < D"
    and s: "sqrt64 (of_nat n) = of_nat m / of_nat D" and m: "m \<le> isqrt (n * (D * D)) + 1"
    by blast
  define f where "f = isqrt (n * (D * D))"
  have ff: "f * f \<le> n * (D * D)" using isqrt_bounds[of "n * (D * D)"] by (simp add: f_def)
  from assms(3) have "(of_nat i :: rat) * of_nat D \<le> of_nat m"
    using D by (simp add: s pos_le_divide_eq)
  then have "(of_nat (i * D) :: rat) \<le> of_nat m" by simp
  then have "i * D \<le> m" by (simp only: of_nat_le_iff)
  with m have "i * D \<le> f + 1" by (simp add: f_def)
  moreover have "n * D \<le> i * D" using ni by simp
  ultimately have nd: "n * D \<le> f + 1" by (rule order_trans[rotated])
  have "1 \<le> n * D" using n0 D by (simp add: Suc_le_eq)
  then obtain g where g: "n * D = g + 1" by (metis add.commute le_Suc_ex plus_1_eq_Suc Suc_eq_plus1)
  with nd have gf: "g \<le> f" by simp
  have "g * g \<le> f * f" by (rule mult_le_mono[OF gf gf])
  with ff have gg: "g * g \<le> n * (D * D)" by simp
  have "3 * D \<le> n * D" using assms(1) by simp
  then have g2: "3 * D \<le> g + 1" using g by simp
  have "(g + 1) * D = n * (D * D)" using g by (simp add: algebra_simps)
  with gg have "g * g \<le> (g + 1) * D" by simp
  moreover have "3 * ((g + 1) * D) \<le> (g + 1) * (g + 1)"
  proof -
    have "3 * ((g + 1) * D) = (g + 1) * (3 * D)" by (simp add: algebra_simps)
    also have "\<dots> \<le> (g + 1) * (g + 1)" using g2 by (rule mult_le_mono2)
    finally show ?thesis .
  qed
  ultimately have "3 * (g * g) \<le> (g + 1) * (g + 1)" by simp
  then have a: "2 * (g * g) \<le> 2 * g + 1" by (simp add: algebra_simps)
  have g3: "2 \<le> g" using g2 D by simp
  then have b: "2 * g \<le> g * g" by (rule mult_le_mono1)
  from a b have "2 * g \<le> 1" by arith
  with g3 show False by simp
qed

lemma jrem_nat:
  assumes "0 < k"
  shows "strict_eq (jrem (Fin (of_nat n)) (Fin (of_nat k))) (Fin 0) \<longleftrightarrow> k dvd n"
proof -
  have nn: "\<not> (of_nat n / of_nat k :: rat) < 0" by (simp add: not_less)
  have "rat_trunc (of_nat n / of_nat k) = int (n div k)"
    using nn by (simp add: rat_trunc_def floor_divide_of_nat_eq)
  then have "(of_nat n :: rat) - of_nat k * of_int (rat_trunc (of_nat n / of_nat k))
      = of_nat n - of_nat (k * (n div k))" by simp
  also have "\<dots> = of_nat (n - k * (n div k))" by (simp add: of_nat_diff)
  also have "n - k * (n div k) = n mod k" by (simp add: minus_mult_div_eq_mod)
  finally have "(of_nat n :: rat) - of_nat k * of_int (rat_trunc (of_nat n / of_nat k))
      = of_nat (n mod k)" .
  then show ?thesis
    using assms by (simp add: strict_eq_def dvd_eq_mod_eq_0)
qed

lemma isPrime_loop_tests:
  "i = of_nat k \<Longrightarrow> 0 < k \<Longrightarrow>
   isPrime_loop (of_nat n) s i
     = (\<forall>j. k \<le> j \<and> of_nat j \<le> s \<and> even (j - k) \<longrightarrow> \<not> j dvd n)"
proof (induction "of_nat n :: rat" s i arbitrary: k rule: isPrime_loop.induct)
  case (1 s i)
  show ?case
  proof (cases "i \<le> s")
    case False
    have "\<And>j. k \<le> j \<Longrightarrow> \<not> of_nat j \<le> s"
    proof
      fix j assume "k \<le> j" "of_nat j \<le> s"
      then have "(of_nat k :: rat) \<le> of_nat j" by simp
      with \<open>of_nat j \<le> s\<close> False 1(2) show False by simp
    qed
    then show ?thesis using False by (subst isPrime_loop.simps) auto
  next
    case True
    show ?thesis
    proof (cases "k dvd n")
      case d: True
      then have "strict_eq (jrem (Fin (of_nat n)) (Fin i)) (Fin 0)"
        using jrem_nat[OF 1(3), of n] 1(2) by simp
      moreover have "\<not> (\<forall>j. k \<le> j \<and> of_nat j \<le> s \<and> even (j - k) \<longrightarrow> \<not> j dvd n)"
        using d True 1(2) by (auto intro!: exI[of _ k])
      ultimately show ?thesis using True by (subst isPrime_loop.simps) simp
    next
      case nd: False
      then have ns: "\<not> strict_eq (jrem (Fin (of_nat n)) (Fin i)) (Fin 0)"
        using jrem_nat[OF 1(3), of n] 1(2) by simp
      have i2: "i + 2 = of_nat (k + 2)" using 1(2) by simp
      have ih: "isPrime_loop (of_nat n) s (i + 2)
          = (\<forall>j. k + 2 \<le> j \<and> of_nat j \<le> s \<and> even (j - (k + 2)) \<longrightarrow> \<not> j dvd n)"
        using 1(1)[OF True ns i2] by simp
      have "(\<forall>j. k + 2 \<le> j \<and> of_nat j \<le> s \<and> even (j - (k + 2)) \<longrightarrow> \<not> j dvd n)
          = (\<forall>j. k \<le> j \<and> of_nat j \<le> s \<and> even (j - k) \<longrightarrow> \<not> j dvd n)"
      proof (intro iffI allI impI)
        fix j assume a: "\<forall>j. k + 2 \<le> j \<and> of_nat j \<le> s \<and> even (j - (k + 2)) \<longrightarrow> \<not> j dvd n"
          and b: "k \<le> j \<and> of_nat j \<le> s \<and> even (j - k)"
        show "\<not> j dvd n"
        proof (cases "j = k")
          case True
          then show ?thesis using nd by simp
        next
          case False
          with b have "j \<noteq> k + 1" by auto
          with False b have "k + 2 \<le> j" by simp
          moreover from this b have "even (j - (k + 2))" by auto
          ultimately show ?thesis using a b by blast
        qed
      next
        fix j assume a: "\<forall>j. k \<le> j \<and> of_nat j \<le> s \<and> even (j - k) \<longrightarrow> \<not> j dvd n"
          and b: "k + 2 \<le> j \<and> of_nat j \<le> s \<and> even (j - (k + 2))"
        then have "k \<le> j \<and> of_nat j \<le> s \<and> even (j - k)" by auto
        with a show "\<not> j dvd n" by blast
      qed
      with ih show ?thesis using True ns by (subst isPrime_loop.simps) simp
    qed
  qed
qed

lemma odd_divisor_search:
  assumes "odd n" and "3 \<le> n"
  shows "prime_number n \<longleftrightarrow> no_odd_divisor_up_to_root n"
proof
  assume p: "prime_number n"
  show "no_odd_divisor_up_to_root n"
    unfolding no_odd_divisor_up_to_root_def
  proof (intro ballI impI)
    fix i assume i: "i \<in> {3..n}" "odd i \<and> i * i \<le> n"
    have "i < n"
    proof (rule ccontr)
      assume "\<not> i < n"
      with i(1) have "i = n" by simp
      with i(2) have "n * n \<le> n * 1" by simp
      then have "n \<le> 1" using assms(2) by (simp only: mult_le_cancel1)
      with assms(2) show False by simp
    qed
    with i(1) have "i \<in> {2..<n}" by simp
    with p show "\<not> i dvd n" by (simp add: prime_number_def)
  qed
next
  assume t: "no_odd_divisor_up_to_root n"
  have "\<forall>d\<in>{2..<n}. \<not> d dvd n"
  proof (intro ballI notI)
    fix d assume d: "d \<in> {2..<n}" "d dvd n"
    then obtain e where e: "n = d * e" by (auto elim: dvdE)
    have e2: "2 \<le> e"
    proof (rule ccontr)
      assume "\<not> 2 \<le> e"
      then have "e = 0 \<or> e = 1" by arith
      with e d(1) assms(2) show False by auto
    qed
    define p where "p = min d e"
    have pn: "p dvd n" using e by (auto simp: p_def min_def)
    have "p * p \<le> d * e" by (auto simp: p_def min_def intro: mult_le_mono)
    then have pp: "p * p \<le> n" using e by simp
    have p2: "2 \<le> p" using d(1) e2 by (simp add: p_def)
    have po: "odd p" using pn assms(1) by (auto elim: dvdE)
    with p2 have p3: "3 \<le> p" by (cases "p = 2") auto
    have "p \<le> p * p" using p2 by (cases p) auto
    from this pp have "p \<le> n" by (rule order_trans)
    with p3 have "p \<in> {3..n}" by simp
    with t po pp have "\<not> p dvd n" by (auto simp: no_odd_divisor_up_to_root_def)
    with pn show False by simp
  qed
  then show "prime_number n" using assms(2) by (simp add: prime_number_def)
qed

lemma isPrime_cases:
  "isPrime (Num (Fin x)) None =
     (if x = 0 then Failure NumberZero
      else if x < 0 then Failure NumberNegative
      else if MAX_SAFE_INTEGER < x then Failure (AboveMaximum (Fin x) (Fin MAX_SAFE_INTEGER))
      else if of_int \<lfloor>x\<rfloor> \<noteq> x then Failure PrimeOnlyIntegers
      else if x = 1 then Success False
      else if x = 2 then Success True
      else if strict_eq (jrem (Fin x) (Fin 2)) (Fin 0) then Success False
      else Success (isPrime_loop x (sqrt64 x) 3))"
  by (auto simp: isPrime_def sign_policy_validation strict_eq_def)

lemma isPrime_rejects:
  "isPrime Undefined None = Failure NumberRequired"
  "isPrime Null None = Failure NumberRequired"
  "v \<noteq> Undefined \<Longrightarrow> v \<noteq> Null \<Longrightarrow> \<not> typeof_number v \<Longrightarrow>
     isPrime v None = Failure TypeMustBeNumber"
  "isPrime (Num NaN) None = Failure NumberNaN"
  "isPrime (Num PosInf) None = Failure NumberInfinite"
  "isPrime (Num NegInf) None = Failure NumberInfinite"
  by (simp_all add: isPrime_def sign_policy_rejects)

lemma isPrime_rejects_invalid:
  assumes "non_positive_or_non_integer v"
  shows "\<not> succeeds (isPrime v None)"
proof (cases "typeof_number v")
  case False
  then show ?thesis
    using isPrime_rejects(1,2) isPrime_rejects(3)[of v]
    by (cases "v = Undefined \<or> v = Null") (auto simp: succeeds_def)
next
  case True
  then obtain y where v: "v = Num y" by (cases v) (auto simp: typeof_number_def)
  show ?thesis
  proof (cases y)
    case (Fin x)
    with assms v have "x \<le> 0 \<or> of_int \<lfloor>x\<rfloor> \<noteq> x"
      by (auto simp: non_positive_or_non_integer_def jle_def strict_eq_def)
    then show ?thesis unfolding v Fin by (auto simp: isPrime_cases succeeds_def)
  qed (simp_all add: v isPrime_rejects succeeds_def)
qed


lemma safe_nat: "(of_nat n :: rat) \<le> MAX_SAFE_INTEGER \<Longrightarrow> n < 2 ^ 53"
proof -
  assume "(of_nat n :: rat) \<le> MAX_SAFE_INTEGER"
  then have "(of_nat n :: rat) \<le> of_nat 9007199254740991" by (simp add: MAX_SAFE_INTEGER_def)
  then have "n \<le> 9007199254740991" by (simp only: of_nat_le_iff)
  then show ?thesis by simp
qed

lemma isPrime_loop_decides:
  assumes "odd n" and "3 \<le> n" and "(of_nat n :: rat) \<le> MAX_SAFE_INTEGER"
  shows "isPrime_loop (of_nat n) (sqrt64 (of_nat n)) 3 = prime_number n"
proof -
  have n53: "n < 2 ^ 53" using assms(3) by (rule safe_nat)
  have n0: "0 < n" using assms(2) by simp
  have three: "(3::rat) = of_nat 3" by simp
  have loop: "isPrime_loop (of_nat n) (sqrt64 (of_nat n)) 3
      = (\<forall>j. 3 \<le> j \<and> of_nat j \<le> sqrt64 (of_nat n) \<and> even (j - 3) \<longrightarrow> \<not> j dvd n)"
    by (rule isPrime_loop_tests[OF three]) simp
  show ?thesis
  proof
    assume l: "isPrime_loop (of_nat n) (sqrt64 (of_nat n)) 3"
    have "no_odd_divisor_up_to_root n"
      unfolding no_odd_divisor_up_to_root_def
    proof (intro ballI impI)
      fix i assume i: "i \<in> {3..n}" "odd i \<and> i * i \<le> n"
      then have "of_nat i \<le> sqrt64 (of_nat n)" using sqrt64_lower[OF n0 n53] by simp
      moreover have "even (i - 3)" using i by auto
      ultimately show "\<not> i dvd n" using l i(1) unfolding loop by simp
    qed
    then show "prime_number n" using odd_divisor_search[OF assms(1,2)] by simp
  next
    assume p: "prime_number n"
    show "isPrime_loop (of_nat n) (sqrt64 (of_nat n)) 3"
      unfolding loop
    proof (intro allI impI)
      fix j assume j: "3 \<le> j \<and> of_nat j \<le> sqrt64 (of_nat n) \<and> even (j - 3)"
      then have "j < n" using sqrt64_upper[OF assms(2) n53] by simp
      with j have "j \<in> {2..<n}" by simp
      with p show "\<not> j dvd n" by (simp add: prime_number_def)
    qed
  qed
qed

lemma isPrime_on_safe_naturals:
  assumes "0 < n" and "(of_nat n :: rat) \<le> MAX_SAFE_INTEGER"
  shows "isPrime (Num (Fin (of_nat n))) None = Success (prime_number n)"
proof -
  have base: "\<not> (of_nat n :: rat) < 0" "(of_nat n :: rat) \<noteq> 0" "\<not> MAX_SAFE_INTEGER < (of_nat n :: rat)"
    "of_int \<lfloor>of_nat n :: rat\<rfloor> = (of_nat n :: rat)"
    using assms by simp_all
  have two: "strict_eq (jrem (Fin (of_nat n)) (Fin 2)) (Fin 0) \<longleftrightarrow> even n"
    using jrem_nat[of 2 n] by simp
  consider "n = 1" | "n = 2" | "2 < n" "even n" | "2 < n" "odd n" using assms(1) by fastforce
  then show ?thesis
  proof cases
    case 1
    then show ?thesis by (simp add: isPrime_cases MAX_SAFE_INTEGER_def prime_number_def)
  next
    case 2
    then show ?thesis by (simp add: isPrime_cases MAX_SAFE_INTEGER_def prime_number_def)
  next
    case 3
    then have "\<not> prime_number n" by (auto simp: prime_number_def intro!: bexI[of _ 2])
    moreover have "(of_nat n :: rat) \<noteq> 1" "(of_nat n :: rat) \<noteq> 2"
      using 3(1) by (metis of_nat_1 of_nat_eq_iff less_numeral_extra(4) one_less_numeral_iff
          less_trans semiring_norm(76), metis of_nat_numeral of_nat_eq_iff less_irrefl)
    ultimately show ?thesis using 3 base two by (simp add: isPrime_cases)
  next
    case 4
    then have n3: "3 \<le> n" by simp
    have "(of_nat n :: rat) \<noteq> 1" "(of_nat n :: rat) \<noteq> 2"
      using 4(1) by (metis of_nat_1 of_nat_eq_iff less_numeral_extra(4) one_less_numeral_iff
          less_trans semiring_norm(76), metis of_nat_numeral of_nat_eq_iff less_irrefl)
    then show ?thesis
      using 4 base two isPrime_loop_decides[OF 4(2) n3 assms(2)] by (simp add: isPrime_cases)
  qed
qed

text \<open>
  C5, as the code has it. Without options, \<open>isPrime\<close> fails on every input that is not
  positive or not an integer, whatever value it is: zero fails with "Number cannot be
  zero", a finite negative number with "Number cannot be negative", a positive binary64
  value that is not an integer with "Prime check is only defined for integers", NaN, the
  infinities and the values that are not numbers with the failures of the validation.
  On every positive integer up to \<open>MAX_SAFE_INTEGER\<close> it succeeds with the truth of "the
  input is a prime number", which for an odd input from 3 is the absence of an odd
  divisor from 3 up to the square root; 1 and 4 give false, 2 gives true. A positive
  integer above \<open>MAX_SAFE_INTEGER\<close> fails in the validation, by the default maximum bound.
\<close>

theorem isPrime_decides_primality:
  "isPrime (Num (Fin 0)) None = Failure NumberZero
   \<and> (x < 0 \<longrightarrow> isPrime (Num (Fin x)) None = Failure NumberNegative)
   \<and> (is_double x \<and> 0 < x \<and> of_int \<lfloor>x\<rfloor> \<noteq> x \<longrightarrow>
        isPrime (Num (Fin x)) None = Failure PrimeOnlyIntegers)
   \<and> (0 < n \<and> of_nat n \<le> MAX_SAFE_INTEGER \<longrightarrow>
        isPrime (Num (Fin (of_nat n))) None = Success (prime_number n))
   \<and> (odd n \<and> 3 \<le> n \<and> of_nat n \<le> MAX_SAFE_INTEGER \<longrightarrow>
        isPrime (Num (Fin (of_nat n))) None = Success (no_odd_divisor_up_to_root n))
   \<and> (MAX_SAFE_INTEGER < of_nat n \<longrightarrow>
        isPrime (Num (Fin (of_nat n))) None
          = Failure (AboveMaximum (Fin (of_nat n)) (Fin MAX_SAFE_INTEGER)))
   \<and> isPrime (Num (Fin 1)) None = Success False
   \<and> isPrime (Num (Fin 2)) None = Success True
   \<and> isPrime (Num (Fin 4)) None = Success False
   \<and> (non_positive_or_non_integer v \<longrightarrow> \<not> succeeds (isPrime v None))
   \<and> isPrime (Num NaN) None = Failure NumberNaN
   \<and> isPrime (Num PosInf) None = Failure NumberInfinite
   \<and> isPrime (Num NegInf) None = Failure NumberInfinite
   \<and> (v = Undefined \<or> v = Null \<longrightarrow> isPrime v None = Failure NumberRequired)
   \<and> (v \<noteq> Undefined \<and> v \<noteq> Null \<and> \<not> typeof_number v \<longrightarrow>
        isPrime v None = Failure TypeMustBeNumber)"
proof (intro conjI impI)
  show "isPrime (Num (Fin 0)) None = Failure NumberZero"
    by (simp add: isPrime_cases)
  show "isPrime (Num (Fin 1)) None = Success False"
    by (simp add: isPrime_cases MAX_SAFE_INTEGER_def)
  show "isPrime (Num (Fin 2)) None = Success True"
    by (simp add: isPrime_cases MAX_SAFE_INTEGER_def)
  have "strict_eq (jrem (Fin (of_nat 4)) (Fin (of_nat 2))) (Fin 0)"
    by (subst jrem_nat) simp_all
  then show "isPrime (Num (Fin 4)) None = Success False"
    by (simp add: isPrime_cases MAX_SAFE_INTEGER_def)
  show "isPrime (Num NaN) None = Failure NumberNaN"
    "isPrime (Num PosInf) None = Failure NumberInfinite"
    "isPrime (Num NegInf) None = Failure NumberInfinite"
    by (simp_all add: isPrime_rejects)
next
  assume "x < 0"
  then show "isPrime (Num (Fin x)) None = Failure NumberNegative"
    by (simp add: isPrime_cases)
next
  assume a: "is_double x \<and> 0 < x \<and> of_int \<lfloor>x\<rfloor> \<noteq> x"
  then have "\<not> MAX_SAFE_INTEGER < x"
    using double_fraction_small[of x] by (auto simp: MAX_SAFE_INTEGER_def)
  with a show "isPrime (Num (Fin x)) None = Failure PrimeOnlyIntegers"
    by (simp add: isPrime_cases)
next
  assume "0 < n \<and> of_nat n \<le> MAX_SAFE_INTEGER"
  then show "isPrime (Num (Fin (of_nat n))) None = Success (prime_number n)"
    by (simp add: isPrime_on_safe_naturals)
next
  assume a: "odd n \<and> 3 \<le> n \<and> of_nat n \<le> MAX_SAFE_INTEGER"
  then have "isPrime (Num (Fin (of_nat n))) None = Success (prime_number n)"
    by (simp add: isPrime_on_safe_naturals)
  then show "isPrime (Num (Fin (of_nat n))) None = Success (no_odd_divisor_up_to_root n)"
    using a odd_divisor_search[of n] by simp
next
  assume a: "MAX_SAFE_INTEGER < of_nat n"
  then have "(of_nat n :: rat) \<noteq> 0" "\<not> (of_nat n :: rat) < 0"
    by (auto simp: MAX_SAFE_INTEGER_def)
  with a show "isPrime (Num (Fin (of_nat n))) None
      = Failure (AboveMaximum (Fin (of_nat n)) (Fin MAX_SAFE_INTEGER))"
    by (simp add: isPrime_cases)
next
  assume "non_positive_or_non_integer v"
  then show "\<not> succeeds (isPrime v None)" by (rule isPrime_rejects_invalid)
next
  assume "v = Undefined \<or> v = Null"
  then show "isPrime v None = Failure NumberRequired" by (auto simp: isPrime_rejects)
next
  assume "v \<noteq> Undefined \<and> v \<noteq> Null \<and> \<not> typeof_number v"
  then show "isPrime v None = Failure TypeMustBeNumber" by (simp add: isPrime_rejects)
qed

text \<open>
  The claim C5 as stated fails at the positive integer \<open>2^53\<close>, a binary64 value: \<open>isPrime\<close>
  does not succeed there.
\<close>

theorem isPrime_positive_integer_counterexample:
  "is_double 9007199254740992 \<and> isInteger (Fin 9007199254740992)
   \<and> jgt (Fin 9007199254740992) (Fin 0)
   \<and> isPrime (Num (Fin 9007199254740992)) None
       = Failure (AboveMaximum (Fin 9007199254740992) (Fin 9007199254740991))
   \<and> \<not> succeeds (isPrime (Num (Fin 9007199254740992)) None)"
  using dbl2 by (simp add: isPrime_cases MAX_SAFE_INTEGER_def jgt_def succeeds_def)

lemma prime17: "prime_number 17"
  by code_simp

lemma not_prime21: "\<not> prime_number 21"
  by code_simp

theorem isPrime_decides_primality_witness:
  "isPrime (Num (Fin 17)) None = Success True
   \<and> isPrime (Num (Fin 21)) None = Success False
   \<and> no_odd_divisor_up_to_root 17
   \<and> isPrime (Num (Fin (-3))) None = Failure NumberNegative
   \<and> isPrime (Num (Fin (11 / 2))) None = Failure PrimeOnlyIntegers
   \<and> isPrime (Num (Fin 0)) None = Failure NumberZero
   \<and> non_positive_or_non_integer (Num NegInf)
   \<and> \<not> succeeds (isPrime (Num NegInf) None)
   \<and> isPrime (Num NegInf) None = Failure NumberInfinite
   \<and> isPrime Undefined None = Failure NumberRequired
   \<and> isPrime (Str ''7'') None = Failure TypeMustBeNumber"
proof -
  have "\<lfloor>11 / 2 :: rat\<rfloor> = 5" by (rule floor_unique) simp_all
  then have h: "is_double (11 / 2) \<and> (0::rat) < 11 / 2 \<and> of_int \<lfloor>11 / 2 :: rat\<rfloor> \<noteq> (11 / 2 :: rat)"
    using dbl1 by simp
  have m: "(0::nat) < 17 \<and> (of_nat 17 :: rat) \<le> MAX_SAFE_INTEGER"
    "(0::nat) < 21 \<and> (of_nat 21 :: rat) \<le> MAX_SAFE_INTEGER"
    "odd (17::nat) \<and> (3::nat) \<le> 17"
    by (simp_all add: MAX_SAFE_INTEGER_def)
  have v: "non_positive_or_non_integer (Num NegInf)" "\<not> typeof_number (Str ''7'')"
    by (simp_all add: non_positive_or_non_integer_def typeof_number_def)
  note t1 = isPrime_decides_primality[of "-3" 17 "Num NegInf"]
  note t2 = isPrime_decides_primality[of "11 / 2" 21 Undefined]
  note t3 = isPrime_decides_primality[of "-3" 17 "Str ''7''"]
  show ?thesis
    using t1 t2 t3 h m v prime17 not_prime21 by auto
qed

subsection \<open>The network adapter\<close>

text \<open>
  C7. When the transport call rejects, \<open>safeFetch\<close> raises that fault: its result is the
  raised fault, not an outcome pair. A response whose status is not a success is returned
  as it is, undecoded. On a success response with decoding requested (the default) the
  decoded body is returned, and a fault of the decoding is raised. With decoding
  suppressed the response object is returned.
\<close>

theorem safeFetch_raises_or_returns:
  "safeFetch (Rejects f) returnJson = (Inl f :: 'f + ('f, 'j) fetched)
   \<and> (\<not> ok (d :: ('f, 'j) Response) \<longrightarrow> safeFetch (Resolves d) returnJson = Inr (Raw d))
   \<and> (ok d \<and> returnJson \<noteq> Some False \<and> json d = Resolves j \<longrightarrow>
        safeFetch (Resolves d) returnJson = Inr (Decoded j))
   \<and> (ok d \<and> returnJson \<noteq> Some False \<and> json d = Rejects g \<longrightarrow>
        safeFetch (Resolves d) returnJson = Inl g)
   \<and> safeFetch (Resolves d) (Some False) = Inr (Raw d)"
  by (cases returnJson) (auto simp: safeFetch_def tryPromise_def)

theorem safeFetch_raises_or_returns_witness:
  "safeFetch (Rejects ''network down'') None = (Inl ''network down'' :: string + (string, nat) fetched)
   \<and> safeFetch (Resolves not_found) None = Inr (Raw not_found)
   \<and> safeFetch (Resolves found) None = Inr (Decoded 7)
   \<and> safeFetch (Resolves found) (Some True) = Inr (Decoded 7)
   \<and> safeFetch (Resolves malformed) None = Inl ''Unexpected token''
   \<and> safeFetch (Resolves found) (Some False) = Inr (Raw found)"
proof -
  note t1 = safeFetch_raises_or_returns[of "''network down''" None not_found 0 "''x''"]
  note t2 = safeFetch_raises_or_returns[of "''network down''" None found 7 "''x''"]
  note t3 = safeFetch_raises_or_returns[of "''network down''" "Some True" found 7 "''x''"]
  note t4 = safeFetch_raises_or_returns[of "''network down''" None malformed 7 "''Unexpected token''"]
  have h: "\<not> ok not_found" "ok found" "json found = Resolves 7" "ok malformed"
    "json malformed = Rejects ''Unexpected token''"
    by (simp_all add: not_found_def found_def malformed_def)
  show ?thesis
    using t1 t2 t3 t4 h by simp
qed

subsection \<open>Text of a number and back\<close>

declare decimal.simps [simp del]

lemma code_unit_digit_char: "d < 10 \<Longrightarrow> code_unit (digit_char d) = 48 + d"
  by (simp add: code_unit_def digit_char_def)

lemma is_digit_digit_char: "d < 10 \<Longrightarrow> is_digit (digit_char d)"
  by (simp add: is_digit_def code_unit_digit_char)

lemma digits_value_snoc:
  "digits_value b (ds @ [c]) = b * digits_value b ds + (code_unit c - 48)"
  by (simp add: digits_value_def)

lemma decimal_digits: "list_all is_digit (decimal n)"
proof (induction n rule: decimal.induct)
  case (1 n)
  show ?case
  proof (cases "n < 10")
    case True
    then show ?thesis by (simp add: decimal.simps[of n] is_digit_digit_char)
  next
    case False
    with 1 show ?thesis by (simp add: decimal.simps[of n] is_digit_digit_char)
  qed
qed

lemma decimal_not_Nil: "decimal n \<noteq> []"
  by (simp add: decimal.simps[of n])

lemma digits_value_decimal: "digits_value 10 (decimal n) = n"
proof (induction n rule: decimal.induct)
  case (1 n)
  show ?case
  proof (cases "n < 10")
    case True
    then show ?thesis
      by (simp add: decimal.simps[of n] digits_value_def code_unit_digit_char)
  next
    case False
    with 1 have "digits_value 10 (decimal (n div 10)) = n div 10" by simp
    then show ?thesis
      using False by (simp add: decimal.simps[of n] digits_value_snoc code_unit_digit_char)
  qed
qed

lemma digit_not_space: "is_digit c \<Longrightarrow> \<not> is_space c"
  by (auto simp: is_digit_def is_space_def)

lemma trim_id:
  assumes "s \<noteq> []" and "\<not> is_space (hd s)" and "\<not> is_space (last s)"
  shows "trim s = s"
proof -
  have keep: "\<And>xs. xs \<noteq> [] \<Longrightarrow> \<not> is_space (hd xs) \<Longrightarrow> dropWhile is_space xs = xs"
  proof -
    fix xs :: string assume "xs \<noteq> []" "\<not> is_space (hd xs)"
    then show "dropWhile is_space xs = xs" by (cases xs) simp_all
  qed
  have a: "dropWhile is_space s = s" using assms(1,2) by (rule keep)
  have "rev s \<noteq> []" "\<not> is_space (hd (rev s))" using assms(1,3) by (simp_all add: hd_rev)
  then have "dropWhile is_space (rev s) = rev s" by (rule keep)
  with a show ?thesis by (simp add: trim_def)
qed

lemma hd_decimal_digit: "is_digit (hd (decimal n))"
  using decimal_digits[of n] decimal_not_Nil[of n] by (cases "decimal n") simp_all

lemma last_decimal_digit: "is_digit (last (decimal n))"
  using decimal_digits[of n] decimal_not_Nil[of n]
  by (metis last_in_set list_all_iff)

lemma unsigned_decimal_digits:
  assumes "ds \<noteq> []" and "list_all is_digit ds"
  shows "unsigned_decimal ds = Some (of_nat (digits_value 10 ds))"
proof -
  have t: "takeWhile is_digit ds = ds" and d: "dropWhile is_digit ds = []"
    using assms(2) by (simp_all add: list_all_iff)
  show ?thesis
    unfolding unsigned_decimal_def t d using assms(1) by (simp add: exponent_part_def)
qed

lemma no_radix_prefix:
  assumes "\<not> is_space c" and "c \<noteq> CHR ''0''"
  shows "string_to_number (c # decimal n) = decimal_literal (c # decimal n)"
proof -
  have t: "trim (c # decimal n) = c # decimal n"
    using assms(1) last_decimal_digit[of n] decimal_not_Nil[of n]
    by (intro trim_id) (auto simp: digit_not_space)
  show ?thesis
    unfolding string_to_number_def t Let_def using assms(2) by (cases "decimal n") simp_all
qed

lemma decimal_no_radix_prefix:
  "string_to_number (decimal n) = decimal_literal (decimal n)"
proof -
  have t: "trim (decimal n) = decimal n"
    using hd_decimal_digit[of n] last_decimal_digit[of n] decimal_not_Nil[of n]
    by (intro trim_id) (auto simp: digit_not_space)
  have d: "list_all is_digit (take 2 (decimal n))"
    using decimal_digits[of n] by (auto simp: list_all_iff dest: in_set_takeD)
  have "\<not> list_all is_digit ''0x''" "\<not> list_all is_digit ''0X''" "\<not> list_all is_digit ''0o''"
    "\<not> list_all is_digit ''0O''" "\<not> list_all is_digit ''0b''" "\<not> list_all is_digit ''0B''"
    by (simp_all add: is_digit_def code_unit_def)
  with d have "take 2 (decimal n) \<noteq> ''0x''" "take 2 (decimal n) \<noteq> ''0X''"
    "take 2 (decimal n) \<noteq> ''0o''" "take 2 (decimal n) \<noteq> ''0O''"
    "take 2 (decimal n) \<noteq> ''0b''" "take 2 (decimal n) \<noteq> ''0B''"
    by metis+
  then show ?thesis
    unfolding string_to_number_def t Let_def using decimal_not_Nil[of n] by simp
qed

lemma decimal_literal_decimal: "decimal_literal (decimal n) = fl (of_nat n)"
proof -
  obtain c t where ct: "decimal n = c # t" using decimal_not_Nil[of n] by (cases "decimal n") auto
  have c: "is_digit c" using hd_decimal_digit[of n] ct by simp
  then have s: "c \<noteq> CHR ''-''" "c \<noteq> CHR ''+''"
    by (auto simp: is_digit_def code_unit_def)
  have "\<not> list_all is_digit ''Infinity''" by (simp add: is_digit_def code_unit_def)
  then have i: "decimal n \<noteq> ''Infinity''" using decimal_digits[of n] by metis
  have "decimal_literal (decimal n) = (case unsigned_decimal (decimal n) of None \<Rightarrow> NaN | Some v \<Rightarrow> fl v)"
    using s i unfolding decimal_literal_def ct by (auto split: option.splits)
  then show ?thesis
    by (simp add: unsigned_decimal_digits decimal_not_Nil decimal_digits digits_value_decimal)
qed

lemma decimal_literal_minus_decimal:
  "decimal_literal (CHR ''-'' # decimal n) = fl (- of_nat n)"
proof -
  have "\<not> list_all is_digit ''Infinity''" by (simp add: is_digit_def code_unit_def)
  then have i: "decimal n \<noteq> ''Infinity''" using decimal_digits[of n] by metis
  then show ?thesis
    by (simp add: decimal_literal_def unsigned_decimal_digits decimal_not_Nil decimal_digits
        digits_value_decimal)
qed

lemma string_to_number_decimal: "string_to_number (decimal n) = fl (of_nat n)"
  by (simp add: decimal_no_radix_prefix decimal_literal_decimal)

lemma string_to_number_minus_decimal: "string_to_number (CHR ''-'' # decimal n) = fl (- of_nat n)"
  by (simp add: no_radix_prefix decimal_literal_minus_decimal is_space_def code_unit_def)

lemma fl_safe_nat: "n < 2 ^ 53 \<Longrightarrow> fl (of_nat n) = Fin (of_nat n)"
  using fl_of_double[OF safe_integer_is_double[of "int n"]] by simp

lemma fl_safe_neg_nat: "n < 2 ^ 53 \<Longrightarrow> fl (- of_nat n) = Fin (- of_nat n)"
  using fl_of_double[OF safe_integer_is_double[of "- int n"]] by simp

lemma default_accepts_safe:
  "\<bar>x\<bar> \<le> MAX_SAFE_INTEGER \<Longrightarrow> isNumber (Num (Fin x)) None = Inr (Fin x)"
  by (auto simp: isNumber_def isNumber_checks_def merged_def spread_def over_def read_def
      truthy_def DEFAULT_OPTIONS_def strict_eq_def jgt_def MAX_SAFE_INTEGER_def Let_def)

lemma toFixed_default:
  assumes "\<bar>x\<bar> \<le> MAX_SAFE_INTEGER"
  shows "toFixed (Num (Fin x)) None None
    = Success ((if x < 0 then ''-'' else '''') @ decimal (nat \<lfloor>\<bar>x\<bar> + 1 / 2\<rfloor>))"
proof -
  have "\<not> 10 ^ 21 \<le> \<bar>x\<bar>" using assms by (simp add: MAX_SAFE_INTEGER_def)
  then show ?thesis
    by (simp add: toFixed_def default_accepts_safe[OF assms] jgt_def toFixed_digits_def)
qed

lemma rounded_magnitude_safe:
  assumes "\<bar>x\<bar> \<le> MAX_SAFE_INTEGER"
  shows "nat \<lfloor>\<bar>x\<bar> + 1 / 2\<rfloor> < 2 ^ 53" and "(of_nat (nat \<lfloor>\<bar>x\<bar> + 1 / 2\<rfloor>) :: rat) \<le> MAX_SAFE_INTEGER"
proof -
  have "\<bar>x\<bar> + 1 / 2 < 9007199254740992" using assms by (simp add: MAX_SAFE_INTEGER_def)
  then have "\<lfloor>\<bar>x\<bar> + 1 / 2\<rfloor> < 9007199254740992" by (simp add: floor_less_iff)
  then have a: "\<lfloor>\<bar>x\<bar> + 1 / 2\<rfloor> \<le> 9007199254740991" by simp
  have "nat \<lfloor>\<bar>x\<bar> + 1 / 2\<rfloor> \<le> nat 9007199254740991" by (rule nat_mono[OF a])
  then show "nat \<lfloor>\<bar>x\<bar> + 1 / 2\<rfloor> < 2 ^ 53" by simp
  have "0 \<le> \<lfloor>\<bar>x\<bar> + 1 / 2\<rfloor>" by simp
  then have "(of_nat (nat \<lfloor>\<bar>x\<bar> + 1 / 2\<rfloor>) :: rat) = of_int \<lfloor>\<bar>x\<bar> + 1 / 2\<rfloor>" by simp
  also have "\<dots> \<le> of_int 9007199254740991" using a by (simp only: of_int_le_iff)
  finally show "(of_nat (nat \<lfloor>\<bar>x\<bar> + 1 / 2\<rfloor>) :: rat) \<le> MAX_SAFE_INTEGER"
    by (simp add: MAX_SAFE_INTEGER_def)
qed

lemma parse_after_toFixed_rounds:
  assumes "\<bar>x\<bar> \<le> MAX_SAFE_INTEGER"
  shows "parse_after_toFixed (Fin x) = Success (Fin (of_int (round_half_away x)))"
proof -
  define r where "r = nat \<lfloor>\<bar>x\<bar> + 1 / 2\<rfloor>"
  have r53: "r < 2 ^ 53" and rs: "(of_nat r :: rat) \<le> MAX_SAFE_INTEGER"
    using rounded_magnitude_safe[OF assms] by (simp_all add: r_def)
  have ri: "(of_nat r :: rat) = of_int \<lfloor>\<bar>x\<bar> + 1 / 2\<rfloor>" by (simp add: r_def)
  show ?thesis
  proof (cases "x < 0")
    case True
    have m: "\<not> is_space CHR ''-''" by (simp add: is_space_def code_unit_def)
    have l: "\<not> is_space (last (decimal r))"
      using last_decimal_digit[of r] by (rule digit_not_space)
    have t: "trim (CHR ''-'' # decimal r) \<noteq> []"
      using m l decimal_not_Nil[of r] by (subst trim_id) simp_all
    have v: "isNumber (Num (Fin (- of_nat r))) None = Inr (Fin (- of_nat r))"
      using rs by (intro default_accepts_safe) simp
    have tf: "toFixed (Num (Fin x)) None None = Success (CHR ''-'' # decimal r)"
      unfolding toFixed_default[OF assms] r_def using True by simp
    have "parse_after_toFixed (Fin x) = Success (Fin (- of_nat r))"
      unfolding parse_after_toFixed_def tf using t v
      by (simp add: parseNumber_def string_to_number_minus_decimal fl_safe_neg_nat[OF r53])
    moreover have "(of_int (round_half_away x) :: rat) = - of_nat r"
      using True by (simp add: round_half_away_def ri)
    ultimately show ?thesis by simp
  next
    case False
    have t: "trim (decimal r) \<noteq> []"
      using hd_decimal_digit[of r] last_decimal_digit[of r] decimal_not_Nil[of r]
      by (subst trim_id) (auto simp: digit_not_space)
    have v: "isNumber (Num (Fin (of_nat r))) None = Inr (Fin (of_nat r))"
      using rs by (intro default_accepts_safe) simp
    have tf: "toFixed (Num (Fin x)) None None = Success (decimal r)"
      unfolding toFixed_default[OF assms] r_def using False by simp
    have "parse_after_toFixed (Fin x) = Success (Fin (of_nat r))"
      unfolding parse_after_toFixed_def tf using t v
      by (simp add: parseNumber_def string_to_number_decimal fl_safe_nat[OF r53])
    moreover have "(of_int (round_half_away x) :: rat) = of_nat r"
      using False by (simp add: round_half_away_def ri)
    ultimately show ?thesis by simp
  qed
qed

lemma round_half_away_of_int: "round_half_away (of_int z) = z"
proof -
  have a: "\<lfloor>(of_int z :: rat) + 1 / 2\<rfloor> = z" by (rule floor_unique) simp_all
  have "\<lfloor>- (of_int z :: rat) + 1 / 2\<rfloor> = - z"
    using floor_unique[of "- z" "- (of_int z :: rat) + 1 / 2"] by simp
  with a show ?thesis by (simp add: round_half_away_def)
qed

text \<open>
  C3, as the code has it. Under the default configuration (no options, \<open>decimals\<close> left at
  its default 0) \<open>toFixed\<close> of an integer within the safe-integer bounds is its decimal
  numeral, and \<open>parseNumber\<close> of that text succeeds with the integer. For any number within
  the bounds the round trip succeeds with the number rounded to the nearest integer, a
  half away from zero.
\<close>

theorem parse_recovers_toFixed_integers:
  "(\<bar>of_int z\<bar> \<le> MAX_SAFE_INTEGER \<longrightarrow>
      toFixed (Num (Fin (of_int z))) None None
        = Success ((if z < 0 then ''-'' else '''') @ decimal (nat \<bar>z\<bar>))
      \<and> parse_after_toFixed (Fin (of_int z)) = Success (Fin (of_int z)))
   \<and> (\<bar>x\<bar> \<le> MAX_SAFE_INTEGER \<longrightarrow>
      parse_after_toFixed (Fin x) = Success (Fin (of_int (round_half_away x))))"
proof (intro conjI impI)
  assume a: "\<bar>of_int z\<bar> \<le> MAX_SAFE_INTEGER"
  have "\<lfloor>\<bar>of_int z :: rat\<bar> + 1 / 2\<rfloor> = \<bar>z\<bar>"
    by (rule floor_unique) (simp_all add: of_int_abs[symmetric] del: of_int_abs)
  then show "toFixed (Num (Fin (of_int z))) None None
        = Success ((if z < 0 then ''-'' else '''') @ decimal (nat \<bar>z\<bar>))"
    using toFixed_default[OF a] by simp
  show "parse_after_toFixed (Fin (of_int z)) = Success (Fin (of_int z))"
    using parse_after_toFixed_rounds[OF a] by (simp add: round_half_away_of_int)
next
  assume "\<bar>x\<bar> \<le> MAX_SAFE_INTEGER"
  then show "parse_after_toFixed (Fin x) = Success (Fin (of_int (round_half_away x)))"
    by (rule parse_after_toFixed_rounds)
qed

lemma decimal_2: "decimal 2 = ''2''"
  by code_simp

lemma decimal_42: "decimal 42 = ''42''"
  by code_simp

lemma dbl3: "is_double (3 / 2)"
  by code_simp

text \<open>
  The claim C3 as stated fails at 1.5, a binary64 value within the safe-integer bounds:
  \<open>toFixed(1.5)\<close> is \<open>"2"\<close>, which parses to 2.
\<close>

theorem parse_toFixed_counterexample:
  "is_double (3 / 2) \<and> \<bar>3 / 2\<bar> \<le> MAX_SAFE_INTEGER
   \<and> toFixed (Num (Fin (3 / 2))) None None = Success ''2''
   \<and> parseNumber (Str ''2'') None = Success (Fin 2)
   \<and> parse_after_toFixed (Fin (3 / 2)) = Success (Fin 2)
   \<and> Fin 2 \<noteq> Fin (3 / 2)"
proof -
  have a: "\<bar>3 / 2 :: rat\<bar> \<le> MAX_SAFE_INTEGER" by (simp add: MAX_SAFE_INTEGER_def)
  have f: "\<lfloor>\<bar>3 / 2 :: rat\<bar> + 1 / 2\<rfloor> = 2" by (rule floor_unique) simp_all
  have t: "toFixed (Num (Fin (3 / 2))) None None = Success ''2''"
    unfolding toFixed_default[OF a] f by (simp add: decimal_2)
  have "trim ''2'' \<noteq> []" by (simp add: trim_def is_space_def code_unit_def)
  moreover have "string_to_number ''2'' = Fin 2"
    using string_to_number_decimal[of 2] fl_safe_nat[of 2] by (simp add: decimal_2)
  moreover have "isNumber (Num (Fin 2)) None = Inr (Fin 2)"
    by (rule default_accepts_safe) (simp add: MAX_SAFE_INTEGER_def)
  ultimately have p: "parseNumber (Str ''2'') None = Success (Fin 2)"
    by (simp add: parseNumber_def)
  show ?thesis
    using a t p dbl3 by (simp add: parse_after_toFixed_def)
qed

theorem parse_recovers_toFixed_integers_witness:
  "toFixed (Num (Fin (- 42))) None None = Success ''-42''
   \<and> parse_after_toFixed (Fin (- 42)) = Success (Fin (- 42))
   \<and> parse_after_toFixed (Fin (5 / 2)) = Success (Fin 3)"
proof -
  have a: "\<bar>of_int (- 42) :: rat\<bar> \<le> MAX_SAFE_INTEGER" "\<bar>5 / 2 :: rat\<bar> \<le> MAX_SAFE_INTEGER"
    by (simp_all add: MAX_SAFE_INTEGER_def)
  have "\<lfloor>(5 / 2 :: rat) + 1 / 2\<rfloor> = 3" by (rule floor_unique) simp_all
  then have r: "round_half_away (5 / 2) = 3" by (simp add: round_half_away_def)
  note t = parse_recovers_toFixed_integers[of "- 42" "5 / 2"]
  show ?thesis
    using t a r by (simp add: decimal_42)
qed

subsection \<open>Case transforms\<close>

lemma code_unit_less: "code_unit c < 256"
  by (simp add: code_unit_def)
































end
